theory Spec2Isabelle
  imports Complex_Main
begin

section \<open>Numbers and matrices\<close>

text \<open>
  A C++ \<^verbatim>\<open>double\<close> is modelled as an extended real: the finite values, the two
  infinities and one NaN. Rounding and signed zeros are not modelled. The comparisons
  are the IEEE ones: every comparison with NaN is false.
\<close>

datatype dbl = NaN | MInf | Fin real | PInf

fun dbl_less :: "dbl \<Rightarrow> dbl \<Rightarrow> bool" where
  "dbl_less NaN y = False"
| "dbl_less x NaN = False"
| "dbl_less MInf MInf = False"
| "dbl_less MInf y = True"
| "dbl_less (Fin a) (Fin b) = (a < b)"
| "dbl_less (Fin a) PInf = True"
| "dbl_less (Fin a) MInf = False"
| "dbl_less PInf y = False"

definition dbl_eq :: "dbl \<Rightarrow> dbl \<Rightarrow> bool" where
  "dbl_eq x y = (x \<noteq> NaN \<and> x = y)"

definition dbl_le :: "dbl \<Rightarrow> dbl \<Rightarrow> bool" where
  "dbl_le x y = (dbl_less x y \<or> dbl_eq x y)"

text \<open>\<^verbatim>\<open>std::max(a, b)\<close> is \<^verbatim>\<open>(a < b) ? b : a\<close>.\<close>

definition std_max :: "dbl \<Rightarrow> dbl \<Rightarrow> dbl" where
  "std_max a b = (if dbl_less a b then b else a)"

fun dbl_sqrt :: "dbl \<Rightarrow> dbl" where
  "dbl_sqrt NaN = NaN"
| "dbl_sqrt MInf = NaN"
| "dbl_sqrt (Fin a) = (if a < 0 then NaN else Fin (sqrt a))"
| "dbl_sqrt PInf = PInf"

fun dbl_div :: "dbl \<Rightarrow> dbl \<Rightarrow> dbl" where
  "dbl_div NaN y = NaN"
| "dbl_div x NaN = NaN"
| "dbl_div (Fin a) (Fin b) =
     (if b \<noteq> 0 then Fin (a / b)
      else if a = 0 then NaN else if 0 < a then PInf else MInf)"
| "dbl_div (Fin a) y = Fin 0"
| "dbl_div PInf (Fin b) = (if 0 \<le> b then PInf else MInf)"
| "dbl_div MInf (Fin b) = (if 0 \<le> b then MInf else PInf)"
| "dbl_div x y = NaN"

fun dbl_times :: "dbl \<Rightarrow> dbl \<Rightarrow> dbl" where
  "dbl_times NaN y = NaN"
| "dbl_times x NaN = NaN"
| "dbl_times (Fin a) (Fin b) = Fin (a * b)"
| "dbl_times (Fin a) PInf = (if a = 0 then NaN else if 0 < a then PInf else MInf)"
| "dbl_times (Fin a) MInf = (if a = 0 then NaN else if 0 < a then MInf else PInf)"
| "dbl_times PInf (Fin b) = (if b = 0 then NaN else if 0 < b then PInf else MInf)"
| "dbl_times MInf (Fin b) = (if b = 0 then NaN else if 0 < b then MInf else PInf)"
| "dbl_times PInf PInf = PInf"
| "dbl_times MInf MInf = PInf"
| "dbl_times PInf MInf = MInf"
| "dbl_times MInf PInf = MInf"

text \<open>
  An \<^verbatim>\<open>Eigen::MatrixXd\<close> is the list of its rows. An \<^verbatim>\<open>Eigen::MatrixXi\<close> with three
  columns (\<^verbatim>\<open>F\<close>, \<^verbatim>\<open>FT\<close>) is a list of triples, and \<open>corner r i\<close> reads column \<open>i\<close>
  of a row. A C++ \<^verbatim>\<open>int\<close> is an \<open>int\<close>: no arithmetic of the modelled code
  leaves the 32-bit range on a mesh that fits in memory.
\<close>

type_synonym matd = "dbl list list"
type_synonym face = "int \<times> int \<times> int"

fun corner :: "face \<Rightarrow> nat \<Rightarrow> int" where
  "corner (a, b, c) i = (if i = 0 then a else if i = 1 then b else c)"

fun corners :: "face \<Rightarrow> int list" where
  "corners (a, b, c) = [a, b, c]"

fun map_face :: "(int \<Rightarrow> int) \<Rightarrow> face \<Rightarrow> face" where
  "map_face g (a, b, c) = (g a, g b, g c)"

definition scale :: "matd \<Rightarrow> dbl \<Rightarrow> matd" where
  "scale M s = map (map (\<lambda>x. dbl_times x s)) M"

text \<open>
  What stops a run other than a return: a failed \<^verbatim>\<open>assert\<close> (in a build without
  \<^verbatim>\<open>NDEBUG\<close>), a read or write outside a matrix or of an uninitialised value, and
  \<^verbatim>\<open>exit()\<close>. The flag \<open>ndebug\<close> of the functions below says whether the build
  defines \<^verbatim>\<open>NDEBUG\<close>, that is, whether \<^verbatim>\<open>assert\<close> is compiled out.
\<close>

datatype error = Assertion_failed | Undefined_behaviour

section \<open>Compaction: \<^verbatim>\<open>clean_mesh\<close>\<close>

text \<open>
  \<^verbatim>\<open>igl::remove_unreferenced(V, F, NV, NF, I)\<close> belongs to libigl, not to this
  repository. It is modelled after its documented contract and its implementation:
  it marks every vertex index that occurs in \<open>F\<close>, numbers the marked indices
  consecutively in increasing order (\<open>I\<close>), keeps the marked rows of \<open>V\<close> in that order
  (\<open>J\<close>) and rewrites every entry of \<open>F\<close> through \<open>I\<close>. An entry of \<open>F\<close> outside
  \<open>0..<V.rows()\<close> makes it read or write outside its arrays.
\<close>

definition referenced :: "nat \<Rightarrow> face list \<Rightarrow> nat list" where
  "referenced n F = filter (\<lambda>i. int i \<in> set (concat (map corners F))) [0..<n]"

definition new_index :: "nat \<Rightarrow> face list \<Rightarrow> int \<Rightarrow> int" where
  "new_index n F a = int (length (filter (\<lambda>i. int i < a) (referenced n F)))"

definition remove_unreferenced :: "'a list \<Rightarrow> face list \<Rightarrow> error + ('a list \<times> face list)" where
  "remove_unreferenced V F =
     (if list_all (\<lambda>a. 0 \<le> a \<and> a < int (length V)) (concat (map corners F))
      then Inr (map (\<lambda>j. V ! j) (referenced (length V) F),
                map (map_face (new_index (length V) F)) F)
      else Inl Undefined_behaviour)"

text \<open>
  The constant \<^verbatim>\<open>DUV_COLLAPSE_EDGE_NULL\<close> is defined in \<^verbatim>\<open>collapse_edge_seam.h\<close>,
  which is not among the sources; it is the parameter \<open>null\<close>.
\<close>

definition live :: "int \<Rightarrow> face \<Rightarrow> bool" where
  "live null r = (corner r 0 \<noteq> null \<or> corner r 1 \<noteq> null \<or> corner r 2 \<noteq> null)"

text \<open>
  The loop of \<^verbatim>\<open>clean_mesh\<close> over the rows \<open>0..<nF\<close> of \<open>F\<close> and \<open>FT\<close>: a row of \<open>F\<close>
  with a corner other than \<open>null\<close> is appended to \<open>F2\<close>, and the row of \<open>FT\<close> to \<open>FT2\<close>,
  after the three assertions on the row of \<open>FT\<close>.
\<close>

fun copy_live_rows :: "bool \<Rightarrow> int \<Rightarrow> (face \<times> face) list \<Rightarrow> error + (face list \<times> face list)" where
  "copy_live_rows ndebug null [] = Inr ([], [])"
| "copy_live_rows ndebug null ((r, t) # rest) =
     (if live null r then
        (if \<not> ndebug \<and> (corner t 0 = null \<or> corner t 1 = null \<or> corner t 2 = null)
         then Inl Assertion_failed
         else (case copy_live_rows ndebug null rest of
                 Inl err \<Rightarrow> Inl err
               | Inr (F2, FT2) \<Rightarrow> Inr (r # F2, t # FT2)))
      else copy_live_rows ndebug null rest)"

record cleaned =
  V_out :: matd
  F_out :: "face list"
  TC_out :: matd
  FT_out :: "face list"

definition clean_mesh ::
  "bool \<Rightarrow> int \<Rightarrow> matd \<Rightarrow> face list \<Rightarrow> matd \<Rightarrow> face list \<Rightarrow> nat \<Rightarrow> error + cleaned" where
  "clean_mesh ndebug null V F TC FT nF =
     (if length F < nF \<or> length FT < nF then Inl Undefined_behaviour
      else (case copy_live_rows ndebug null (zip (take nF F) (take nF FT)) of
              Inl err \<Rightarrow> Inl err
            | Inr (F2, FT2) \<Rightarrow>
               (case remove_unreferenced V F2 of
                  Inl err \<Rightarrow> Inl err
                | Inr (V', F') \<Rightarrow>
                   (case remove_unreferenced TC FT2 of
                      Inl err \<Rightarrow> Inl err
                    | Inr (TC', FT') \<Rightarrow>
                        Inr \<lparr>V_out = V', F_out = F', TC_out = TC', FT_out = FT'\<rparr>))))"


section \<open>Working tables and the code outside the sources\<close>

record config =
  seam_aware_degree :: int
  preserve_boundaries :: bool
  pos_scale :: dbl
  uv_weight :: dbl

record flaps =
  fl_E :: "(int \<times> int) list"
  fl_EMAP :: "int list"
  fl_EF :: "(int \<times> int) list"
  fl_EI :: "(int \<times> int) list"

type_synonym queue = "(dbl \<times> int) list"
type_synonym vmetrics = "((int \<times> int) \<times> matd) list"

definition Vmetrics_set :: "int \<times> int \<Rightarrow> matd \<Rightarrow> vmetrics \<Rightarrow> vmetrics" where
  "Vmetrics_set k q m = (k, q) # filter (\<lambda>p. fst p \<noteq> k) m"

record ('s, 'p) tables =
  t_V :: matd
  t_F :: "face list"
  t_TC :: matd
  t_FT :: "face list"
  t_EMAP :: "int list"
  t_E :: "(int \<times> int) list"
  t_EF :: "(int \<times> int) list"
  t_EI :: "(int \<times> int) list"
  t_seam_edges :: 's
  t_Vmetrics :: vmetrics
  t_Q :: queue
  t_Qit :: "(dbl \<times> int) list"
  t_C :: "'p list"
  t_V_scaled :: matd
  t_TC_scaled :: matd

record ('s, 'p) env =
  assertions_off :: bool
  DUV_COLLAPSE_EDGE_NULL :: int
  igl_boundary_facets :: "face list \<Rightarrow> (int \<times> int) list"
  igl_edge_flaps :: "face list \<Rightarrow> flaps"
  insert_edge :: "'s \<Rightarrow> int \<Rightarrow> int \<Rightarrow> 's"
  cost_and_placement_qslim5d_halfedge :: "config \<Rightarrow> ('s, 'p) tables \<Rightarrow> int \<Rightarrow> dbl \<times> 'p"
  collapse_edge_with_uv :: "config \<Rightarrow> ('s, 'p) tables \<Rightarrow> bool \<times> int \<times> ('s, 'p) tables"

text \<open>
  The priority queue is a \<^verbatim>\<open>std::set<std::pair<double, int>>\<close>: the list of its entries
  in the order of \<^verbatim>\<open>operator<\<close> on pairs, which \<open>pair_less\<close> is; \<open>hd\<close> is \<^verbatim>\<open>*Q.begin()\<close>.
  With a NaN cost \<^verbatim>\<open>operator<\<close> is no strict weak order and C++ leaves the insertion
  undefined; \<open>Q_insert\<close> then still inserts, at a place that need not be the one a
  given library chooses. The properties below are stated for whatever the queue holds
  and do not depend on the place of a NaN entry.
\<close>

definition pair_less :: "dbl \<times> int \<Rightarrow> dbl \<times> int \<Rightarrow> bool" where
  "pair_less x y = (dbl_less (fst x) (fst y) \<or> (\<not> dbl_less (fst y) (fst x) \<and> snd x < snd y))"

fun Q_insert :: "dbl \<times> int \<Rightarrow> queue \<Rightarrow> queue" where
  "Q_insert x [] = [x]"
| "Q_insert x (y # ys) =
     (if pair_less x y then x # y # ys
      else if pair_less y x then y # Q_insert x ys
      else y # ys)"

definition cols :: "matd \<Rightarrow> nat" where
  "cols M = (case M of [] \<Rightarrow> 0 | r # rs \<Rightarrow> length r)"

definition connect_boundary_to_infinity ::
  "(face list \<Rightarrow> (int \<times> int) list) \<Rightarrow> matd \<Rightarrow> face list \<Rightarrow> matd \<times> face list" where
  "connect_boundary_to_infinity bf V F =
     (V @ [replicate (cols V) PInf],
      F @ map (\<lambda>(a, b). (b, a, int (length V))) (bf F))"

fun minCoeff :: "dbl list \<Rightarrow> dbl" where
  "minCoeff [] = NaN"
| "minCoeff (x # xs) = foldl (\<lambda>m y. if dbl_less y m then y else m) x xs"

definition insert_boundary_edges :: "('s, 'p) env \<Rightarrow> flaps \<Rightarrow> 's \<Rightarrow> 's" where
  "insert_boundary_edges env fb seams =
     foldl (\<lambda>s (ed, ef). if snd ef = - 1 then insert_edge env s (fst ed) (snd ed) else s)
       seams (zip (fl_E fb) (fl_EF fb))"

fun find_corner :: "face \<Rightarrow> int \<Rightarrow> nat" where
  "find_corner (a, b, c) x = (if a = x then 0 else if b = x then 1 else if c = x then 2 else 3)"

definition infinity_FT_row ::
  "bool \<Rightarrow> nat \<Rightarrow> nat \<Rightarrow> face list \<Rightarrow> flaps \<Rightarrow> face option list \<Rightarrow> nat \<Rightarrow> error + face" where
  "infinity_FT_row nd OV_rows OTC_rows F fl FT fi =
     (if \<not> nd \<and> corner (F ! fi) 2 \<noteq> int OV_rows then Inl Assertion_failed
      else if length (fl_EMAP fl) \<le> 2 * length F + fi then Inl Undefined_behaviour
      else let e = fl_EMAP fl ! (2 * length F + fi) in
        if e < 0 \<or> int (length (fl_EF fl)) \<le> e then Inl Undefined_behaviour
        else let ef = fl_EF fl ! nat e in
          if \<not> nd \<and> \<not> (fst ef = int fi \<or> snd ef = int fi) then Inl Assertion_failed
          else let fi_opp = (if fst ef = int fi then snd ef else fst ef) in
            if fi_opp < 0 \<or> int (length F) \<le> fi_opp then Inl Undefined_behaviour
            else let fi_opp_v1 = find_corner (F ! nat fi_opp) (corner (F ! fi) ((2 + 1) mod 3)) in
              if \<not> fi_opp_v1 < 3 then (if nd then Inl Undefined_behaviour else Inl Assertion_failed)
              else let fi_opp_v2 = (fi_opp_v1 + 3 - 1) mod 3;
                       FT2 = FT[fi := map_option (\<lambda>(a, b, c). (a, b, int OTC_rows)) (FT ! fi)]
                in (case FT2 ! nat fi_opp of
                      None \<Rightarrow> Inl Undefined_behaviour
                    | Some t \<Rightarrow> Inr (corner t fi_opp_v1, corner t fi_opp_v2, int OTC_rows)))"

fun infinity_FT_rows ::
  "bool \<Rightarrow> nat \<Rightarrow> nat \<Rightarrow> face list \<Rightarrow> flaps \<Rightarrow> face option list \<Rightarrow> nat list \<Rightarrow>
     error + face option list" where
  "infinity_FT_rows nd OV_rows OTC_rows F fl FT [] = Inr FT"
| "infinity_FT_rows nd OV_rows OTC_rows F fl FT (fi # fis) =
     (case infinity_FT_row nd OV_rows OTC_rows F fl FT fi of
        Inl err \<Rightarrow> Inl err
      | Inr row \<Rightarrow> infinity_FT_rows nd OV_rows OTC_rows F fl (FT[fi := Some row]) fis)"

definition add_infinity_uv ::
  "bool \<Rightarrow> matd \<Rightarrow> face list \<Rightarrow> matd \<Rightarrow> face list \<Rightarrow> face list \<Rightarrow> flaps \<Rightarrow> vmetrics \<Rightarrow>
     error + (matd \<times> face list \<times> vmetrics)" where
  "add_infinity_uv nd OV OF OTC OFT F fl Vmetrics =
     (let TC = OTC @ [replicate (cols OTC) PInf];
          Vm = Vmetrics_set (int (length OV), int (length OTC)) (replicate 6 (replicate 6 (Fin 0)))
                 Vmetrics;
          FT0 = map Some (take (length F) OFT) @ replicate (length F - length OFT) None
      in case infinity_FT_rows nd (length OV) (length OTC) F fl FT0 [length OF..<length F] of
           Inl err \<Rightarrow> Inl err
         | Inr FT1 \<Rightarrow>
             if list_all (\<lambda>r. r \<noteq> None) FT1 then Inr (TC, map the FT1, Vm)
             else Inl Undefined_behaviour)"

definition seed_queue :: "('s, 'p) env \<Rightarrow> config \<Rightarrow> ('s, 'p) tables \<Rightarrow> ('s, 'p) tables" where
  "seed_queue env cfg tb =
     foldl (\<lambda>t e. case cost_and_placement_qslim5d_halfedge env cfg tb (int e) of
                     (cost, new_placement) \<Rightarrow>
                       t\<lparr>t_C := t_C t @ [new_placement],
                         t_Qit := t_Qit t @ [(cost, int e)],
                         t_Q := Q_insert (cost, int e) (t_Q t)\<rparr>)
       (tb\<lparr>t_Q := [], t_Qit := [], t_C := []\<rparr>) [0..<length (t_E tb)]"

definition prepare_decimate_halfedge_5d ::
  "('s, 'p) env \<Rightarrow> config \<Rightarrow> matd \<Rightarrow> face list \<Rightarrow> matd \<Rightarrow> face list \<Rightarrow> 's \<Rightarrow> vmetrics \<Rightarrow> int \<Rightarrow>
     error + (('s, 'p) tables \<times> int)" where
  "prepare_decimate_halfedge_5d env cfg OV OF OTC OFT seam_edges Vmetrics target_num_vertices =
     (let seams = (if preserve_boundaries cfg
                   then insert_boundary_edges env (igl_edge_flaps env OF) seam_edges
                   else seam_edges);
          VF = connect_boundary_to_infinity (igl_boundary_facets env) OV OF;
          V = fst VF; F = snd VF
      in if last V = [] then Inl Undefined_behaviour
         else let has_infinity_vertex = dbl_eq (minCoeff (last V)) PInf;
                  target = (if has_infinity_vertex then target_num_vertices + 1
                            else target_num_vertices);
                  fl = igl_edge_flaps env F
           in case (if has_infinity_vertex
                    then add_infinity_uv (assertions_off env) OV OF OTC OFT F fl Vmetrics
                    else Inr (OTC, OFT, Vmetrics)) of
                Inl err \<Rightarrow> Inl err
              | Inr (TC, FT, Vm) \<Rightarrow>
                  let tb = seed_queue env cfg
                        \<lparr>t_V = V, t_F = F, t_TC = TC, t_FT = FT,
                         t_EMAP = fl_EMAP fl, t_E = fl_E fl, t_EF = fl_EF fl, t_EI = fl_EI fl,
                         t_seam_edges = seams, t_Vmetrics = Vm,
                         t_Q = [], t_Qit = [], t_C = [],
                         t_V_scaled = scale V (pos_scale cfg),
                         t_TC_scaled = scale TC (uv_weight cfg)\<rparr>
                  in if \<not> assertions_off env \<and> length (t_Q tb) \<noteq> length (t_E tb)
                     then Inl Assertion_failed
                     else Inr (tb, target))"


section \<open>The collapse loop\<close>

partial_function (option) collapse_attempts ::
  "('s, 'p) env \<Rightarrow> config \<Rightarrow> int \<Rightarrow> int option \<Rightarrow> ('s, 'p) tables \<Rightarrow>
     (error + (bool \<times> int option \<times> ('s, 'p) tables)) option" where
  "collapse_attempts env cfg prev_e e tb =
     (if t_Q tb = [] then Some (Inr (False, e, tb))
      else if dbl_eq (fst (hd (t_Q tb))) PInf then Some (Inr (False, e, tb))
      else (case collapse_edge_with_uv env cfg tb of
              (ok, e', tb') \<Rightarrow>
                if ok then Some (Inr (True, Some e', tb'))
                else if prev_e = e' then
                  (if assertions_off env then Some (Inr (False, Some e', tb'))
                   else Some (Inl Assertion_failed))
                else collapse_attempts env cfg prev_e (Some e') tb'))"

definition collapse_one_edge ::
  "('s, 'p) env \<Rightarrow> config \<Rightarrow> int \<Rightarrow> ('s, 'p) tables \<Rightarrow>
     (error + (bool \<times> int \<times> ('s, 'p) tables)) option" where
  "collapse_one_edge env cfg prev_e tb =
     (case collapse_attempts env cfg prev_e None tb of
        None \<Rightarrow> None
      | Some (Inl err) \<Rightarrow> Some (Inl err)
      | Some (Inr (success, None, tb')) \<Rightarrow> Some (Inl Undefined_behaviour)
      | Some (Inr (success, Some e, tb')) \<Rightarrow> Some (Inr (success, e, tb')))"

text \<open>
  The attempts of one call of \<^verbatim>\<open>collapse_one_edge\<close> on the tables \<open>tb0\<close>: the values of
  \<^verbatim>\<open>e\<close> and of the tables each time the body of its \<^verbatim>\<open>while(true)\<close> loop is entered. The
  first attempt finds \<^verbatim>\<open>e\<close> uninitialised and the tables of the caller; a further
  attempt follows a failed one on an edge other than \<^verbatim>\<open>prev_e\<close>.
\<close>

inductive attempt_reached ::
  "('s, 'p) env \<Rightarrow> config \<Rightarrow> int \<Rightarrow> ('s, 'p) tables \<Rightarrow> int option \<Rightarrow> ('s, 'p) tables \<Rightarrow> bool"
  for env cfg prev_e tb0 where
  first: "attempt_reached env cfg prev_e tb0 None tb0"
| retry: "attempt_reached env cfg prev_e tb0 e tb \<Longrightarrow>
          t_Q tb \<noteq> [] \<Longrightarrow> \<not> dbl_eq (fst (hd (t_Q tb))) PInf \<Longrightarrow>
          collapse_edge_with_uv env cfg tb = (False, e', tb') \<Longrightarrow> prev_e \<noteq> e' \<Longrightarrow>
          attempt_reached env cfg prev_e tb0 (Some e') tb'"

code_pred attempt_reached .

text \<open>
  \<^verbatim>\<open>sqrt(std::max(0.0, cost)) / pos_scale\<close>, in the arithmetic of \<open>dbl\<close>: the square root
  and the quotient are the exact ones, where a \<^verbatim>\<open>double\<close> rounds and can overflow to
  infinity.
\<close>

definition collapse_error :: "dbl \<Rightarrow> dbl \<Rightarrow> dbl" where
  "collapse_error scale_of_positions cost =
     dbl_div (dbl_sqrt (std_max (Fin 0) cost)) scale_of_positions"

record ('s, 'p) loop_state =
  prev_e :: int
  remain_vertices :: int
  current_max_error :: dbl
  tabs :: "('s, 'p) tables"

datatype ('s, 'p) iteration = Break bool "('s, 'p) loop_state" | Continue "('s, 'p) loop_state"

definition decimate_iteration ::
  "('s, 'p) env \<Rightarrow> config \<Rightarrow> ('s, 'p) loop_state \<Rightarrow> (error + ('s, 'p) iteration) option" where
  "decimate_iteration env cfg s =
     (if t_Q (tabs s) = [] then Some (Inr (Break True s))
      else let cost = fst (hd (t_Q (tabs s))) in
        if dbl_eq cost PInf then Some (Inr (Break True s))
        else (case collapse_one_edge env cfg (prev_e s) (tabs s) of
                None \<Rightarrow> None
              | Some (Inl err) \<Rightarrow> Some (Inl err)
              | Some (Inr (collapse_success, e, tb')) \<Rightarrow>
                  if \<not> collapse_success
                  then Some (Inr (Break False (s\<lparr>prev_e := e, tabs := tb'\<rparr>)))
                  else Some (Inr (Continue
                         \<lparr>prev_e = e,
                          remain_vertices = remain_vertices s - 1,
                          current_max_error =
                            std_max (current_max_error s) (collapse_error (pos_scale cfg) cost),
                          tabs = tb'\<rparr>))))"

function decimate_loop ::
  "('s, 'p) env \<Rightarrow> config \<Rightarrow> int \<Rightarrow> ('s, 'p) loop_state \<Rightarrow>
     (error + (bool \<times> ('s, 'p) loop_state)) option" where
  "decimate_loop env cfg target s =
     (if remain_vertices s > target then
        (case decimate_iteration env cfg s of
           None \<Rightarrow> None
         | Some (Inl err) \<Rightarrow> Some (Inl err)
         | Some (Inr (Break clean_finish s')) \<Rightarrow> Some (Inr (clean_finish, s'))
         | Some (Inr (Continue s')) \<Rightarrow> decimate_loop env cfg target s')
      else Some (Inr (True, s)))"
  by pat_completeness auto
termination
proof (relation "measure (\<lambda>(env, cfg, target, s). nat (remain_vertices s - target))")
  show "wf (measure (\<lambda>(env, cfg, target, s). nat (remain_vertices s - target)))" by simp
next
  fix env :: "('s, 'p) env" and cfg target and s :: "('s, 'p) loop_state" and x2 x2a x2b
  assume "target < remain_vertices s" "decimate_iteration env cfg s = Some x2"
    "x2 = Inr x2a" "x2a = Continue x2b"
  then have "remain_vertices x2b = remain_vertices s - 1"
    by (auto simp: decimate_iteration_def Let_def split: if_splits option.splits sum.splits prod.splits)
  with \<open>target < remain_vertices s\<close>
  show "((env, cfg, target, x2b), (env, cfg, target, s))
        \<in> measure (\<lambda>(env, cfg, target, s). nat (remain_vertices s - target))"
    by simp
qed

declare decimate_loop.simps [simp del]




record decimated =
  clean_finish :: bool
  cleaned_mesh :: cleaned
  max_error :: dbl

definition decimate_halfedge_5d ::
  "('s, 'p) env \<Rightarrow> config \<Rightarrow> matd \<Rightarrow> face list \<Rightarrow> matd \<Rightarrow> face list \<Rightarrow> 's \<Rightarrow> vmetrics \<Rightarrow> int \<Rightarrow>
     (error + decimated) option" where
  "decimate_halfedge_5d env cfg OV OF OTC OFT seam_edges Vmetrics target_num_vertices =
     (case prepare_decimate_halfedge_5d env cfg OV OF OTC OFT seam_edges Vmetrics
             target_num_vertices of
        Inl err \<Rightarrow> Some (Inl err)
      | Inr (tb, target) \<Rightarrow>
          (case decimate_loop env cfg target
                  \<lparr>prev_e = - 1, remain_vertices = int (length (t_V tb)),
                   current_max_error = Fin 0,
                   tabs = tb\<lparr>t_V_scaled := scale (t_V tb) (pos_scale cfg),
                              t_TC_scaled := scale (t_TC tb) (uv_weight cfg)\<rparr>\<rparr> of
             None \<Rightarrow> None
           | Some (Inl err) \<Rightarrow> Some (Inl err)
           | Some (Inr (finish, s)) \<Rightarrow>
               (case clean_mesh (assertions_off env) (DUV_COLLAPSE_EDGE_NULL env)
                       (t_V (tabs s)) (t_F (tabs s)) (t_TC (tabs s)) (t_FT (tabs s))
                       (length OF) of
                  Inl err \<Rightarrow> Some (Inl err)
                | Inr out \<Rightarrow>
                    Some (Inr \<lparr>clean_finish = finish, cleaned_mesh = out,
                               max_error = current_max_error s\<rparr>))))"


section \<open>The driver\<close>

record obj =
  o_V :: matd
  o_TC :: matd
  o_CN :: matd
  o_F :: "face list"
  o_FT :: "face list"
  o_FN :: "face list"

record ('s, 'p) world =
  core :: "('s, 'p) env"
  get_optional_parameter :: "string list \<Rightarrow> string \<Rightarrow> (string \<times> string list) option"
  atoi :: "string \<Rightarrow> int"
  strto_int :: "string \<Rightarrow> int"
  strto_double :: "string \<Rightarrow> dbl"
  lround :: "dbl \<Rightarrow> int"
  os_path_splitext :: "string \<Rightarrow> string \<times> string"
  fixed6 :: "dbl \<Rightarrow> string"
  readOBJ :: "string \<Rightarrow> obj option"
  writeOBJ :: "string \<Rightarrow> obj \<Rightarrow> bool"
  total_area :: "matd \<Rightarrow> face list \<Rightarrow> dbl"
  seam_vertex_edges :: "obj \<Rightarrow> bool \<Rightarrow> 's"
  half_edge_qslim_5d :: "obj \<Rightarrow> dbl \<Rightarrow> dbl \<Rightarrow> vmetrics"

record run =
  exit_code :: int
  stderr :: "string list"
  written :: "(string \<times> obj) list"

definition digit_char :: "nat \<Rightarrow> char" where
  "digit_char d = char_of (48 + d)"

fun nat_digits :: "nat \<Rightarrow> string" where
  "nat_digits n = (if n < 10 then [digit_char n] else nat_digits (n div 10) @ [digit_char (n mod 10)])"

definition to_string :: "int \<Rightarrow> string" where
  "to_string i = (if i < 0 then CHR ''-'' # nat_digits (nat (- i)) else nat_digits (nat i))"

definition usage_text :: "string \<Rightarrow> string list" where
  "usage_text argv0 =
     [''Usage: '' @ argv0 @ '' <path/to/input.obj> <command> <parameter> [<output.obj>] [options]'',
      '''',
      ''Commands:'',
      ''  num-vertices <N>      Decimate to N vertices.'',
      ''  percent-vertices <P>  Decimate to P% of original vertices.'',
      '''',
      ''Options:'',
      ''  --strict <degree>        Set seam awareness (0: NoUVShapePreserving, 1: UVShapePreserving, 2: Seamless (default)).'',
      ''  --preserve-boundaries    Prevent boundary edges from being collapsed.'',
      ''  --uv-weight <weight>     Set weight for relative UV error weight (default: 1.0).'',
      '''',
      ''If an output file is not specified, one is generated with the final geometric error in its name.'']"

definition usage :: "string list \<Rightarrow> run \<Rightarrow> run" where
  "usage argv r = r\<lparr>stderr := stderr r @ usage_text (hd argv), exit_code := - 1\<rparr>"

text \<open>
  \<^verbatim>\<open>std::cerr << argv[i]\<close>. The array \<^verbatim>\<open>argv\<close> holds \<^verbatim>\<open>argc\<close> strings, here the list
  \<open>argv\<close>; \<^verbatim>\<open>argv[argc]\<close> is a null pointer, which \<^verbatim>\<open>operator<<\<close> for \<^verbatim>\<open>const char*\<close> must not
  be given, and the array ends after it: streaming \<^verbatim>\<open>argv[i]\<close> for \<open>i\<close> from \<^verbatim>\<open>argc\<close> on is
  undefined behaviour.
\<close>

definition argv_text :: "string list \<Rightarrow> nat \<Rightarrow> error + string" where
  "argv_text argv i = (if i < length argv then Inr (argv ! i) else Inl Undefined_behaviour)"

definition decimate_down_to ::
  "('s, 'p) world \<Rightarrow> obj \<Rightarrow> int \<Rightarrow> int \<Rightarrow> bool \<Rightarrow> dbl \<Rightarrow> (error + decimated) option" where
  "decimate_down_to w m target_num_vertices degree boundaries weight =
     (if \<not> assertions_off (core w) \<and>
         \<not> (target_num_vertices > 0 \<and> target_num_vertices < int (length (o_V m)))
      then Some (Inl Assertion_failed)
      else let avg_area = (if length (o_F m) > 0
                           then dbl_div (total_area w (o_V m) (o_F m)) (Fin (real (length (o_F m))))
                           else Fin 0);
               scale_of_positions = (if dbl_less (Fin (1 / 10 ^ 12)) avg_area
                                     then dbl_sqrt (dbl_div (Fin 1) avg_area) else Fin 1)
        in if \<not> assertions_off (core w) \<and> \<not> (cols (o_V m) = 3 \<and> cols (o_TC m) = 2)
           then Some (Inl Assertion_failed)
           else decimate_halfedge_5d (core w)
                  \<lparr>seam_aware_degree = degree, preserve_boundaries = boundaries,
                   pos_scale = scale_of_positions, uv_weight = weight\<rparr>
                  (o_V m) (o_F m) (o_TC m) (o_FT m)
                  (seam_vertex_edges w m boundaries)
                  (half_edge_qslim_5d w m scale_of_positions weight)
                  target_num_vertices)"

definition write_and_exit :: "('s, 'p) world \<Rightarrow> string list \<Rightarrow> string \<Rightarrow> obj \<Rightarrow> string list \<Rightarrow> run \<Rightarrow> run" where
  "write_and_exit w argv output_path m after r =
     (if \<not> writeOBJ w output_path m
      then usage argv (r\<lparr>stderr := stderr r @ [''ERROR: Could not write OBJ: '' @ output_path]\<rparr>)
      else r\<lparr>written := written r @ [(output_path, m)], stderr := stderr r @ after, exit_code := 0\<rparr>)"

definition parse_options :: "('s, 'p) world \<Rightarrow> string list \<Rightarrow> int \<times> dbl \<times> bool \<times> string list" where
  "parse_options w argv =
     (let args0 = tl argv;
          strict = get_optional_parameter w args0 ''--strict'';
          degree = (case strict of None \<Rightarrow> 2 | Some (v, a) \<Rightarrow> atoi w v);
          args1 = (case strict of None \<Rightarrow> args0 | Some (v, a) \<Rightarrow> a);
          weight_opt = get_optional_parameter w args1 ''--uv-weight'';
          uv_weight_str = (case weight_opt of None \<Rightarrow> ''1.0'' | Some (v, a) \<Rightarrow> v);
          args2 = (case weight_opt of None \<Rightarrow> args1 | Some (v, a) \<Rightarrow> a)
      in (degree, strto_double w uv_weight_str,
          ''--preserve-boundaries'' \<in> set args2,
          filter (\<lambda>a. a \<noteq> ''--preserve-boundaries'') args2))"

definition target_of_command :: "('s, 'p) world \<Rightarrow> string \<Rightarrow> string \<Rightarrow> nat \<Rightarrow> int" where
  "target_of_command w command command_parameter V_rows =
     (if command = ''num-vertices'' then strto_int w command_parameter
      else lround w (dbl_div (dbl_times (strto_double w command_parameter) (Fin (real V_rows)))
                       (Fin 100)))"

definition main :: "('s, 'p) world \<Rightarrow> string list \<Rightarrow> (error + run) option" where
  "main w argv =
     (case parse_options w argv of
        (degree, weight, boundaries, args) \<Rightarrow>
     let r0 = \<lparr>exit_code = 0, stderr = [], written = []\<rparr>
      in if length args \<noteq> 3 \<and> length args \<noteq> 4 then Some (Inr (usage argv r0))
         else let input_path = args ! 0; command = args ! 1; command_parameter = args ! 2;
                  rest = drop 3 args
           in (case readOBJ w input_path of
                 None \<Rightarrow> Some (Inr (usage argv
                           (r0\<lparr>stderr := [''ERROR: Could not read OBJ: '' @ input_path]\<rparr>)))
               | Some m \<Rightarrow>
                  if command \<noteq> ''num-vertices'' \<and> command \<noteq> ''percent-vertices''
                  then Some (Inr (usage argv
                           (r0\<lparr>stderr := [''ERROR: Unknown command: '' @ command]\<rparr>)))
                  else let target_num_vertices =
                             target_of_command w command command_parameter (length (o_V m))
                    in if target_num_vertices \<le> 0
                       then (case argv_text argv 4 of
                               Inl err \<Rightarrow> Some (Inl err)
                             | Inr a \<Rightarrow> Some (Inr (usage argv
                                 (r0\<lparr>stderr := [''ERROR: Target number of vertices must be a positive integer: ''
                                                 @ a]\<rparr>))))
                       else if target_num_vertices \<ge> int (length (o_V m))
                       then let output_path = fst (os_path_splitext w input_path) @ ''-decimated_to_''
                                    @ to_string (int (length (o_V m))) @ ''_vertices.obj''
                         in if \<not> writeOBJ w output_path m
                            then Some (Inr (write_and_exit w argv output_path m [] r0))
                            else (case argv_text argv 4 of
                                    Inl err \<Rightarrow> Some (Inl err)
                                  | Inr a \<Rightarrow> Some (Inr (write_and_exit w argv output_path m
                                      [''ERROR: Target number of vertices must be smaller than the input number of vertices: ''
                                         @ a]
                                      r0)))
                       else if length rest > 1 then Some (Inr (usage argv r0))
                       else (case decimate_down_to w m target_num_vertices degree boundaries weight of
                               None \<Rightarrow> None
                             | Some (Inl err) \<Rightarrow> Some (Inl err)
                             | Some (Inr d) \<Rightarrow>
                                 let r1 = (if \<not> clean_finish d
                                           then r0\<lparr>stderr := [''WARNING: decimate_down_to() returned false (target number of vertices may have been unachievable).'']\<rparr>
                                           else r0);
                                     output_path =
                                       (if rest \<noteq> [] then hd rest
                                        else fst (os_path_splitext w input_path) @ ''-decimated_to_''
                                               @ to_string (int (length (V_out (cleaned_mesh d))))
                                               @ ''_err_'' @ fixed6 w (max_error d) @ ''.obj'')
                                 in Some (Inr (write_and_exit w argv output_path
                                      \<lparr>o_V = V_out (cleaned_mesh d), o_TC = TC_out (cleaned_mesh d),
                                       o_CN = [], o_F = F_out (cleaned_mesh d),
                                       o_FT = FT_out (cleaned_mesh d), o_FN = []\<rparr>
                                      [] r1)))))"

section \<open>Contracts of the code outside the sources\<close>

text \<open>
  What libigl documents of \<^verbatim>\<open>igl::boundary_facets(F, B)\<close>: every row of \<open>B\<close> is a side
  of a face of \<open>F\<close>, in the direction in which that face runs through it (the side
  opposite corner \<open>v\<close> goes from corner \<open>v + 1\<close> to corner \<open>v + 2\<close>).
\<close>

definition boundary_facets_contract :: "face list \<Rightarrow> (int \<times> int) list \<Rightarrow> bool" where
  "boundary_facets_contract F B =
     list_all (\<lambda>(a, b). list_ex (\<lambda>r. list_ex (\<lambda>v. a = corner r ((v + 1) mod 3) \<and>
                                                   b = corner r ((v + 2) mod 3)) [0..<3]) F) B"

text \<open>
  What libigl documents of \<^verbatim>\<open>igl::edge_flaps(F, E, EMAP, EF, EI)\<close>: \<open>EMAP\<close> has one entry
  for each side of each face, the side opposite corner \<open>v\<close> of face \<open>f\<close> at
  \<open>v * F.rows() + f\<close>; the entry is a row \<open>e\<close> of \<open>E\<close> that holds the two ends of that
  side, and \<open>EF(e, k)\<close>, \<open>EI(e, k)\<close> hold \<open>f\<close> and \<open>v\<close>, in column \<open>k = 0\<close> when the face runs
  through the side from \<open>E(e, 0)\<close> to \<open>E(e, 1)\<close> and in column 1 otherwise; no two rows of
  \<open>E\<close> hold the same unordered pair.
\<close>

definition edge_flaps_contract :: "face list \<Rightarrow> flaps \<Rightarrow> bool" where
  "edge_flaps_contract F fl =
     (length (fl_EMAP fl) = 3 * length F \<and>
      length (fl_EF fl) = length (fl_E fl) \<and>
      length (fl_EI fl) = length (fl_E fl) \<and>
      list_all (\<lambda>f. list_all (\<lambda>v.
          let e = fl_EMAP fl ! (v * length F + f);
              a = corner (F ! f) ((v + 1) mod 3);
              b = corner (F ! f) ((v + 2) mod 3)
          in 0 \<le> e \<and> e < int (length (fl_E fl)) \<and>
             (fl_E fl ! nat e = (a, b) \<and> fst (fl_EF fl ! nat e) = int f \<and>
                fst (fl_EI fl ! nat e) = int v \<or>
              fl_E fl ! nat e = (b, a) \<and> snd (fl_EF fl ! nat e) = int f \<and>
                snd (fl_EI fl ! nat e) = int v)) [0..<3]) [0..<length F] \<and>
      distinct (map (\<lambda>(a, b). (min a b, max a b)) (fl_E fl)))"

text \<open>A face is degenerate when two of its corners are the same vertex.\<close>

definition nondegenerate :: "face list \<Rightarrow> bool" where
  "nondegenerate F = list_all (\<lambda>(a, b, c). a \<noteq> b \<and> b \<noteq> c \<and> a \<noteq> c) F"


section \<open>Example inputs\<close>

text \<open>A unit square of four vertices, with one texture coordinate per vertex.\<close>

definition square_V :: matd where
  "square_V = [[Fin 0, Fin 0, Fin 0], [Fin 1, Fin 0, Fin 0], [Fin 0, Fin 1, Fin 0], [Fin 1, Fin 1, Fin 0]]"

definition square_TC :: matd where
  "square_TC = [[Fin 0, Fin 0], [Fin 1, Fin 0], [Fin 0, Fin 1], [Fin 1, Fin 1]]"


text \<open>Face tables with the sentinel in some rows, for the compaction.\<close>

definition quad_F :: "face list" where
  "quad_F = [(0, 1, 2), (0, 0, 0), (0, 0, 3), (2, 1, 3)]"




text \<open>
  A single triangle \<open>(0, 1, 2)\<close> with one texture coordinate per vertex; \<open>tri5_V\<close> has
  two more vertices that no face uses. Connected to infinity the triangle is a
  tetrahedron: the vertex at infinity has the index \<open>vinf\<close> (the number of input
  vertices) and the three virtual faces are rows 1 to 3. \<open>tri_flaps vinf\<close> are edge-flap
  tables of the augmented mesh.
\<close>

definition tri_V :: matd where
  "tri_V = [[Fin 0, Fin 0, Fin 0], [Fin 2, Fin 0, Fin 0], [Fin 0, Fin 1, Fin 0]]"

definition tri5_V :: matd where
  "tri5_V = tri_V @ [[Fin 5, Fin 5, Fin 5], [Fin 6, Fin 6, Fin 6]]"

definition tri_TC :: matd where
  "tri_TC = [[Fin 0, Fin 0], [Fin 1, Fin 0], [Fin 0, Fin 1]]"

definition tri_obj :: "matd \<Rightarrow> obj" where
  "tri_obj V = \<lparr>o_V = V, o_TC = tri_TC, o_CN = [], o_F = [(0, 1, 2)], o_FT = [(0, 1, 2)], o_FN = []\<rparr>"

definition tri_flaps :: "int \<Rightarrow> flaps" where
  "tri_flaps vinf =
     \<lparr>fl_E = [(1, 2), (2, 0), (0, 1), (1, vinf), (vinf, 2), (vinf, 0)],
      fl_EMAP = [0, 3, 4, 5, 1, 4, 5, 3, 2, 0, 1, 2],
      fl_EF = [(0, 1), (0, 2), (0, 3), (1, 3), (1, 2), (2, 3)],
      fl_EI = [(0, 2), (1, 2), (2, 2), (0, 1), (1, 0), (1, 0)]\<rparr>"

text \<open>
  An environment for the triangle: the build flag, the cost of each edge and the
  collapse executor are left open; the library calls answer for the triangle
  (\<open>igl_edge_flaps\<close> for the augmented triangle, whose last row names the vertex at
  infinity).
\<close>

definition tri_env ::
  "bool \<Rightarrow> (int \<Rightarrow> dbl) \<Rightarrow> (config \<Rightarrow> (unit, unit) tables \<Rightarrow> bool \<times> int \<times> (unit, unit) tables) \<Rightarrow>
     (unit, unit) env" where
  "tri_env off cost ce =
     \<lparr>assertions_off = off, DUV_COLLAPSE_EDGE_NULL = 0,
      igl_boundary_facets = (\<lambda>F. [(1, 2), (2, 0), (0, 1)]),
      igl_edge_flaps = (\<lambda>F. tri_flaps (corner (last F) 2)),
      insert_edge = (\<lambda>s a b. s),
      cost_and_placement_qslim5d_halfedge = (\<lambda>cfg tb e. (cost e, ())),
      collapse_edge_with_uv = ce\<rparr>"

definition tri_world ::
  "bool \<Rightarrow> (int \<Rightarrow> dbl) \<Rightarrow> (config \<Rightarrow> (unit, unit) tables \<Rightarrow> bool \<times> int \<times> (unit, unit) tables) \<Rightarrow>
     matd \<Rightarrow> (unit, unit) world" where
  "tri_world off cost ce V =
     \<lparr>core = tri_env off cost ce,
      get_optional_parameter = (\<lambda>args name. None),
      atoi = (\<lambda>s. 0),
      strto_int = (\<lambda>s. if s = ''2'' then 2 else if s = ''4'' then 4 else if s = ''5'' then 5 else 0),
      strto_double = (\<lambda>s. Fin 1),
      lround = (\<lambda>d. 0),
      os_path_splitext = (\<lambda>p. (''tri'', ''.obj'')),
      fixed6 = (\<lambda>d. ''0.000000''),
      readOBJ = (\<lambda>p. if p = ''tri.obj'' then Some (tri_obj V) else None),
      writeOBJ = (\<lambda>p m. True),
      total_area = (\<lambda>V F. Fin 1),
      seam_vertex_edges = (\<lambda>m b. ()),
      half_edge_qslim_5d = (\<lambda>m a b. [])\<rparr>"

text \<open>The tables that \<^verbatim>\<open>prepare_decimate_halfedge_5d\<close> builds for the triangle.\<close>

definition tri_tables :: "matd \<Rightarrow> (int \<Rightarrow> dbl) \<Rightarrow> (unit, unit) tables" where
  "tri_tables V cost =
     (let vinf = int (length V) in
     \<lparr>t_V = V @ [[PInf, PInf, PInf]],
      t_F = [(0, 1, 2), (2, 1, vinf), (0, 2, vinf), (1, 0, vinf)],
      t_TC = tri_TC @ [[PInf, PInf]],
      t_FT = [(0, 1, 2), (2, 1, 3), (0, 2, 3), (1, 0, 3)],
      t_EMAP = fl_EMAP (tri_flaps vinf), t_E = fl_E (tri_flaps vinf),
      t_EF = fl_EF (tri_flaps vinf), t_EI = fl_EI (tri_flaps vinf),
      t_seam_edges = (), t_Vmetrics = [((vinf, 3), replicate 6 (replicate 6 (Fin 0)))],
      t_Q = foldl (\<lambda>q e. Q_insert (cost e, e) q) [] [0, 1, 2, 3, 4, 5],
      t_Qit = map (\<lambda>e. (cost e, e)) [0, 1, 2, 3, 4, 5],
      t_C = replicate 6 (),
      t_V_scaled = V @ [[PInf, PInf, PInf]],
      t_TC_scaled = tri_TC @ [[PInf, PInf]]\<rparr>)"

definition unit_config :: config where
  "unit_config = \<lparr>seam_aware_degree = 2, preserve_boundaries = False, pos_scale = Fin 1, uv_weight = Fin 1\<rparr>"

text \<open>An executor that fails on edge 0 and changes nothing, and one that pops the
  cheapest edge and reports success.\<close>

definition refuse_edge_0 :: "config \<Rightarrow> (unit, unit) tables \<Rightarrow> bool \<times> int \<times> (unit, unit) tables" where
  "refuse_edge_0 cfg tb = (False, 0, tb)"

definition pop_cheapest :: "config \<Rightarrow> (unit, unit) tables \<Rightarrow> bool \<times> int \<times> (unit, unit) tables" where
  "pop_cheapest cfg tb = (True, snd (hd (t_Q tb)), tb\<lparr>t_Q := tl (t_Q tb)\<rparr>)"


text \<open>An executor that fails on the cheapest edge and takes it out of the queue.\<close>

definition refuse_and_drop :: "config \<Rightarrow> (unit, unit) tables \<Rightarrow> bool \<times> int \<times> (unit, unit) tables" where
  "refuse_and_drop cfg tb = (False, snd (hd (t_Q tb)), tb\<lparr>t_Q := tl (t_Q tb)\<rparr>)"


section \<open>Properties of the compaction\<close>


lemma copy_live_rows_Inr:
  "copy_live_rows ndebug null ps = Inr (F2, FT2) \<Longrightarrow>
     F2 = map fst (filter (\<lambda>p. live null (fst p)) ps) \<and>
     FT2 = map snd (filter (\<lambda>p. live null (fst p)) ps)"
  by (induction ps arbitrary: F2 FT2) (auto split: if_splits sum.splits)

lemma copy_live_rows_ndebug:
  "\<exists>F2 FT2. copy_live_rows True null ps = Inr (F2, FT2)"
  by (induction ps) (auto split: sum.splits)

lemma filter_zip_take_nth:
  "nF \<le> length F \<Longrightarrow> nF \<le> length FT \<Longrightarrow>
   filter (\<lambda>p. P (fst p)) (zip (take nF F) (take nF FT)) =
   map (\<lambda>f. (F ! f, FT ! f)) (filter (\<lambda>f. P (F ! f)) [0..<nF])"
proof (induction nF)
  case 0 then show ?case by simp
next
  case (Suc n)
  then show ?case by (simp add: take_Suc_conv_app_nth zip_append1)
qed

lemma nth_length_filter_less:
  "sorted xs \<Longrightarrow> distinct xs \<Longrightarrow> (x::nat) \<in> set xs \<Longrightarrow>
     xs ! length (filter (\<lambda>i. i < x) xs) = x"
proof (induction xs)
  case Nil then show ?case by simp
next
  case (Cons y ys)
  show ?case
  proof (cases "x = y")
    case True
    with Cons.prems have "filter (\<lambda>i. i < x) ys = []"
      by (auto simp: filter_empty_conv)
    with True show ?thesis by simp
  next
    case False
    with Cons.prems have "y < x" "x \<in> set ys" by auto
    with Cons show ?thesis by simp
  qed
qed

lemma referenced_sorted: "sorted (referenced n F)" "distinct (referenced n F)"
  by (simp_all add: referenced_def sorted_wrt_filter)

lemma referenced_mem:
  "0 \<le> a \<Longrightarrow> a < int n \<Longrightarrow> a \<in> set (concat (map corners F)) \<Longrightarrow> nat a \<in> set (referenced n F)"
  by (auto simp: referenced_def)

lemma new_index_range:
  assumes "0 \<le> a" "a < int n" "a \<in> set (concat (map corners F))"
  shows "0 \<le> new_index n F a \<and> new_index n F a < int (length (referenced n F))"
proof -
  have m: "nat a \<in> set (referenced n F)" using assms by (rule referenced_mem)
  have "\<not> int (nat a) < a" using assms by simp
  with m have "length (filter (\<lambda>i. int i < a) (referenced n F)) < length (referenced n F)"
    by (rule length_filter_less)
  then show ?thesis by (simp add: new_index_def)
qed

lemma new_index_nth:
  assumes "0 \<le> a" "a < int n" "a \<in> set (concat (map corners F))"
  shows "referenced n F ! nat (new_index n F a) = nat a"
proof -
  have m: "nat a \<in> set (referenced n F)" using assms by (rule referenced_mem)
  have "(\<lambda>i. int i < a) = (\<lambda>i. i < nat a)" using assms by auto
  then have "new_index n F a = int (length (filter (\<lambda>i. i < nat a) (referenced n F)))"
    by (simp add: new_index_def)
  with nth_length_filter_less[OF referenced_sorted m] show ?thesis by simp
qed

lemma kept_row_nth:
  assumes "0 \<le> a" "a < int n" "a \<in> set (concat (map corners F))"
  shows "map (\<lambda>j. M ! j) (referenced n F) ! nat (new_index n F a) = M ! nat a"
proof -
  from new_index_range[OF assms] have "nat (new_index n F a) < length (referenced n F)"
    by linarith
  then show ?thesis by (simp add: new_index_nth[OF assms])
qed


lemma clean_mesh_Inr:
  assumes "clean_mesh ndebug null V F TC FT nF = Inr out"
  defines "kept \<equiv> filter (\<lambda>f. live null (F ! f)) [0..<nF]"
  defines "F2 \<equiv> map (\<lambda>f. F ! f) kept" and "FT2 \<equiv> map (\<lambda>f. FT ! f) kept"
  shows "nF \<le> length F" "nF \<le> length FT"
    "list_all (\<lambda>a. 0 \<le> a \<and> a < int (length V)) (concat (map corners F2))"
    "list_all (\<lambda>a. 0 \<le> a \<and> a < int (length TC)) (concat (map corners FT2))"
    "V_out out = map (\<lambda>j. V ! j) (referenced (length V) F2)"
    "F_out out = map (map_face (new_index (length V) F2)) F2"
    "TC_out out = map (\<lambda>j. TC ! j) (referenced (length TC) FT2)"
    "FT_out out = map (map_face (new_index (length TC) FT2)) FT2"
proof -
  from assms(1) have len: "nF \<le> length F" "nF \<le> length FT"
    by (auto simp: clean_mesh_def split: if_splits)
  from assms(1) len obtain A B where
    c: "copy_live_rows ndebug null (zip (take nF F) (take nF FT)) = Inr (A, B)"
    by (auto simp: clean_mesh_def split: if_splits sum.splits)
  from copy_live_rows_Inr[OF c] filter_zip_take_nth[OF len, of "live null"]
  have AB: "A = F2" "B = FT2"
    by (simp_all add: F2_def FT2_def kept_def comp_def)
  from assms(1) len c AB show
    "list_all (\<lambda>a. 0 \<le> a \<and> a < int (length V)) (concat (map corners F2))"
    "list_all (\<lambda>a. 0 \<le> a \<and> a < int (length TC)) (concat (map corners FT2))"
    "V_out out = map (\<lambda>j. V ! j) (referenced (length V) F2)"
    "F_out out = map (map_face (new_index (length V) F2)) F2"
    "TC_out out = map (\<lambda>j. TC ! j) (referenced (length TC) FT2)"
    "FT_out out = map (map_face (new_index (length TC) FT2)) FT2"
    by (auto simp: clean_mesh_def remove_unreferenced_def split: if_splits sum.splits)
  show "nF \<le> length F" "nF \<le> length FT" by (rule len)+
qed

lemma corner_in_corners: "i < 3 \<Longrightarrow> corner r i \<in> set (corners r)"
  by (cases r) auto

lemma corner_map_face: "corner (map_face g r) i = g (corner r i)"
  by (cases r) auto

lemma corners_map_face: "corners (map_face g r) = map g (corners r)"
  by (cases r) auto



lemma clean_mesh_kept_rows:
  assumes "clean_mesh ndebug null V F TC FT nF = Inr out"
  shows "let kept = filter (\<lambda>f. corner (F ! f) 0 \<noteq> null \<or> corner (F ! f) 1 \<noteq> null \<or>
                                  corner (F ! f) 2 \<noteq> null) [0..<nF];
             I = new_index (length V) (map (\<lambda>f. F ! f) kept);
             IT = new_index (length TC) (map (\<lambda>f. FT ! f) kept)
         in nF \<le> length F \<and> nF \<le> length FT \<and>
            F_out out = map (\<lambda>f. map_face I (F ! f)) kept \<and>
            FT_out out = map (\<lambda>f. map_face IT (FT ! f)) kept \<and>
            (\<forall>k < length kept. \<forall>i < 3.
               V_out out ! nat (corner (F_out out ! k) i) = V ! nat (corner (F ! (kept ! k)) i) \<and>
               TC_out out ! nat (corner (FT_out out ! k) i) = TC ! nat (corner (FT ! (kept ! k)) i))"
proof -
  define kept where "kept = filter (\<lambda>f. live null (F ! f)) [0..<nF]"
  define F2 where "F2 = map (\<lambda>f. F ! f) kept"
  define FT2 where "FT2 = map (\<lambda>f. FT ! f) kept"
  note cm = clean_mesh_Inr[OF assms, folded kept_def, folded F2_def FT2_def]
  have pt: "V_out out ! nat (corner (F_out out ! k) i) = V ! nat (corner (F ! (kept ! k)) i) \<and>
            TC_out out ! nat (corner (FT_out out ! k) i) = TC ! nat (corner (FT ! (kept ! k)) i)"
    if "k < length kept" "i < 3" for k i
  proof -
    have a: "corner (F ! (kept ! k)) i \<in> set (concat (map corners F2))"
      using that corner_in_corners[OF that(2), of "F ! (kept ! k)"]
      by (auto simp: F2_def intro!: bexI[of _ "kept ! k"])
    have b: "corner (FT ! (kept ! k)) i \<in> set (concat (map corners FT2))"
      using that corner_in_corners[OF that(2), of "FT ! (kept ! k)"]
      by (auto simp: FT2_def intro!: bexI[of _ "kept ! k"])
    from a cm(3) have ra: "0 \<le> corner (F ! (kept ! k)) i" "corner (F ! (kept ! k)) i < int (length V)"
      by (auto simp: list_all_iff)
    from b cm(4) have rb: "0 \<le> corner (FT ! (kept ! k)) i" "corner (FT ! (kept ! k)) i < int (length TC)"
      by (auto simp: list_all_iff)
    from kept_row_nth[OF ra a]
    have 1: "V_out out ! nat (corner (F_out out ! k) i) = V ! nat (corner (F ! (kept ! k)) i)"
      using that by (simp add: cm(5,6) F2_def corner_map_face)
    from kept_row_nth[OF rb b]
    have 2: "TC_out out ! nat (corner (FT_out out ! k) i) = TC ! nat (corner (FT ! (kept ! k)) i)"
      using that by (simp add: cm(7,8) FT2_def corner_map_face)
    from 1 2 show ?thesis ..
  qed
  have "F_out out = map (\<lambda>f. map_face (new_index (length V) F2) (F ! f)) kept"
       "FT_out out = map (\<lambda>f. map_face (new_index (length TC) FT2) (FT ! f)) kept"
    by (simp_all add: cm(6,8) F2_def FT2_def)
  with cm(1,2) pt show ?thesis
    unfolding Let_def kept_def[unfolded live_def, symmetric] F2_def[symmetric] FT2_def[symmetric]
    by blast
qed



text \<open>
  Claim C10. \<^verbatim>\<open>clean_mesh\<close> copies row \<open>f\<close> of the working tables, \<open>0 \<le> f < nF\<close>, into the
  output if and only if one of the three corners of \<open>F ! f\<close> differs from the sentinel:
  the output rows are the rows \<open>kept\<close>, in order, renumbered by
  \<^verbatim>\<open>remove_unreferenced\<close>, and each output corner names the vertex that the corner of
  the working row names. Rows from \<open>nF\<close> on are not in \<open>kept\<close>. A row with one or two
  corners equal to the sentinel is in \<open>kept\<close>.
\<close>

theorem clean_mesh_copies_exactly_live_rows:
  assumes "clean_mesh ndebug null V F TC FT nF = Inr out"
  shows "let kept = filter (\<lambda>f. corner (F ! f) 0 \<noteq> null \<or> corner (F ! f) 1 \<noteq> null \<or>
                                  corner (F ! f) 2 \<noteq> null) [0..<nF];
             I = new_index (length V) (map (\<lambda>f. F ! f) kept);
             IT = new_index (length TC) (map (\<lambda>f. FT ! f) kept)
         in nF \<le> length F \<and> nF \<le> length FT \<and>
            F_out out = map (\<lambda>f. map_face I (F ! f)) kept \<and>
            FT_out out = map (\<lambda>f. map_face IT (FT ! f)) kept \<and>
            (\<forall>k < length kept. \<forall>i < 3.
               V_out out ! nat (corner (F_out out ! k) i) = V ! nat (corner (F ! (kept ! k)) i) \<and>
               TC_out out ! nat (corner (FT_out out ! k) i) = TC ! nat (corner (FT ! (kept ! k)) i))"
  using assms by (rule clean_mesh_kept_rows)

theorem clean_mesh_copies_exactly_live_rows_witness:
  "clean_mesh True 0 square_V quad_F square_TC quad_F 3 =
     Inr \<lparr>V_out = square_V, F_out = [(0, 1, 2), (0, 0, 3)],
          TC_out = square_TC, FT_out = [(0, 1, 2), (0, 0, 3)]\<rparr> \<and>
   filter (\<lambda>f. corner (quad_F ! f) 0 \<noteq> 0 \<or> corner (quad_F ! f) 1 \<noteq> 0 \<or> corner (quad_F ! f) 2 \<noteq> 0)
     [0..<3] = [0, 2] \<and>
   F_out \<lparr>V_out = square_V, F_out = [(0, 1, 2), (0, 0, 3)],
          TC_out = square_TC, FT_out = [(0, 1, 2), (0, 0, 3)]\<rparr> =
     map (\<lambda>f. map_face (new_index (length square_V) (map (\<lambda>f. quad_F ! f) [0, 2])) (quad_F ! f)) [0, 2]"
proof -
  have h: "clean_mesh True 0 square_V quad_F square_TC quad_F 3 =
     Inr \<lparr>V_out = square_V, F_out = [(0, 1, 2), (0, 0, 3)],
          TC_out = square_TC, FT_out = [(0, 1, 2), (0, 0, 3)]\<rparr>"
    by code_simp
  have k: "filter (\<lambda>f. corner (quad_F ! f) 0 \<noteq> 0 \<or> corner (quad_F ! f) 1 \<noteq> 0 \<or> corner (quad_F ! f) 2 \<noteq> 0)
     [0..<3] = [0, 2]"
    by code_simp
  from clean_mesh_copies_exactly_live_rows[OF h] h k show ?thesis
    by (simp add: Let_def)
qed





section \<open>Properties of the collapse loop\<close>

lemma dbl_le_refl: "x \<noteq> NaN \<Longrightarrow> dbl_le x x"
  by (simp add: dbl_le_def dbl_eq_def)

lemma dbl_le_not_NaN: "dbl_le x y \<Longrightarrow> x \<noteq> NaN \<and> y \<noteq> NaN"
  by (cases x; cases y) (auto simp: dbl_le_def dbl_eq_def)

lemma dbl_le_trans: "dbl_le x y \<Longrightarrow> dbl_le y z \<Longrightarrow> dbl_le x z"
  by (cases x; cases y; cases z) (auto simp: dbl_le_def dbl_eq_def)

lemma std_max_ge_left: "a \<noteq> NaN \<Longrightarrow> dbl_le a (std_max a b)"
  by (cases a; cases b) (auto simp: std_max_def dbl_le_def dbl_eq_def)

lemma decimate_iteration_Continue:
  assumes "decimate_iteration env cfg s = Some (Inr (Continue s'))"
  shows "current_max_error s' =
           std_max (current_max_error s)
             (dbl_div (dbl_sqrt (std_max (Fin 0) (fst (hd (t_Q (tabs s)))))) (pos_scale cfg))"
    and "remain_vertices s' = remain_vertices s - 1"
    and "\<exists>e. collapse_one_edge env cfg (prev_e s) (tabs s) = Some (Inr (True, e, tabs s'))"
  using assms
  by (auto simp: decimate_iteration_def Let_def collapse_error_def
           split: if_splits option.splits sum.splits prod.splits)

lemma decimate_iteration_Break:
  assumes "decimate_iteration env cfg s = Some (Inr (Break b s'))"
  shows "current_max_error s' = current_max_error s" "remain_vertices s' = remain_vertices s"
  using assms
  by (auto simp: decimate_iteration_def Let_def
           split: if_splits option.splits sum.splits prod.splits)

lemma decimate_loop_max_error:
  "decimate_loop env cfg target s = Some (Inr (b, t)) \<Longrightarrow> dbl_le (Fin 0) (current_max_error s) \<Longrightarrow>
     dbl_le (current_max_error s) (current_max_error t)"
proof (induction env cfg target s rule: decimate_loop.induct)
  case (1 env cfg target s)
  from "1.prems"(2) have nn: "current_max_error s \<noteq> NaN" by (auto dest: dbl_le_not_NaN)
  show ?case
  proof (cases "remain_vertices s > target")
    case False
    with "1.prems" nn show ?thesis by (simp add: dbl_le_refl decimate_loop.simps)
  next
    case True
    with "1.prems"(1) obtain it where it: "decimate_iteration env cfg s = Some (Inr it)"
      by (auto simp: decimate_loop.simps split: option.splits sum.splits)
    show ?thesis
    proof (cases it)
      case (Break c s')
      with "1.prems"(1) True it have "t = s'" by (simp add: decimate_loop.simps)
      with decimate_iteration_Break(1)[OF it[unfolded Break]] nn show ?thesis
        by (simp add: dbl_le_refl)
    next
      case (Continue s')
      with "1.prems"(1) True it have r: "decimate_loop env cfg target s' = Some (Inr (b, t))"
        by (simp add: decimate_loop.simps)
      from decimate_iteration_Continue(1)[OF it[unfolded Continue]] nn
      have step: "dbl_le (current_max_error s) (current_max_error s')"
        by (simp add: std_max_ge_left)
      with "1.prems"(2) have "dbl_le (Fin 0) (current_max_error s')" by (rule dbl_le_trans)
      from "1.IH"[OF True it refl Continue r this] step show ?thesis
        by (rule dbl_le_trans[rotated])
    qed
  qed
qed

lemma decimate_halfedge_5d_Some:
  assumes "decimate_halfedge_5d env cfg OV OF' OTC OFT se vm target = Some (Inr d)"
  obtains tb tg s where
    "prepare_decimate_halfedge_5d env cfg OV OF' OTC OFT se vm target = Inr (tb, tg)"
    "decimate_loop env cfg tg
       \<lparr>prev_e = - 1, remain_vertices = int (length (t_V tb)), current_max_error = Fin 0,
        tabs = tb\<lparr>t_V_scaled := scale (t_V tb) (pos_scale cfg),
                   t_TC_scaled := scale (t_TC tb) (uv_weight cfg)\<rparr>\<rparr> = Some (Inr (clean_finish d, s))"
    "clean_mesh (assertions_off env) (DUV_COLLAPSE_EDGE_NULL env)
       (t_V (tabs s)) (t_F (tabs s)) (t_TC (tabs s)) (t_FT (tabs s)) (length OF') =
     Inr (cleaned_mesh d)"
    "max_error d = current_max_error s"
  using assms
  by (auto simp: decimate_halfedge_5d_def split: sum.splits option.splits prod.splits)

lemma decimate_halfedge_5d_max_error:
  assumes "decimate_halfedge_5d env cfg OV OF' OTC OFT se vm target = Some (Inr d)"
  shows "dbl_le (Fin 0) (max_error d)"
proof -
  from assms obtain tb tg s where
    l: "decimate_loop env cfg tg
          \<lparr>prev_e = - 1, remain_vertices = int (length (t_V tb)), current_max_error = Fin 0,
           tabs = tb\<lparr>t_V_scaled := scale (t_V tb) (pos_scale cfg),
                      t_TC_scaled := scale (t_TC tb) (uv_weight cfg)\<rparr>\<rparr> = Some (Inr (clean_finish d, s))"
    and d: "max_error d = current_max_error s"
    by (rule decimate_halfedge_5d_Some)
  from decimate_loop_max_error[OF l] d show ?thesis by (simp add: dbl_le_refl)
qed

text \<open>Evaluation of the model on the triangle.\<close>

lemma tri_env_sel:
  "assertions_off (tri_env a b c) = a" "DUV_COLLAPSE_EDGE_NULL (tri_env a b c) = 0"
  "collapse_edge_with_uv (tri_env a b c) = c"
  by (simp_all add: tri_env_def)

lemma tri_world_sel:
  "core (tri_world a b c V) = tri_env a b c"
  "total_area (tri_world a b c V) = (\<lambda>V F. Fin 1)"
  "seam_vertex_edges (tri_world a b c V) = (\<lambda>m b. ())"
  "half_edge_qslim_5d (tri_world a b c V) = (\<lambda>m a b. [])"
  by (simp_all add: tri_world_def)

lemma tri_dims:
  "cols tri_V = 3" "cols tri5_V = 3" "cols tri_TC = 2" "length tri_V = 3" "length tri5_V = 5"
  by (simp_all add: cols_def tri_V_def tri5_V_def tri_TC_def)

lemma tri_queue_4:
  "t_Q (tri_tables V (\<lambda>e. Fin 4)) =
     [(Fin 4, 0), (Fin 4, 1), (Fin 4, 2), (Fin 4, 3), (Fin 4, 4), (Fin 4, 5)]"
  by (simp add: tri_tables_def Let_def pair_less_def)

lemma tri_queue_inf:
  "t_Q (tri_tables V (\<lambda>e. PInf)) =
     [(PInf, 0), (PInf, 1), (PInf, 2), (PInf, 3), (PInf, 4), (PInf, 5)]"
  by (simp add: tri_tables_def Let_def pair_less_def)

lemma tri_tables_V: "length (t_V (tri_tables V c)) = length V + 1"
  by (simp add: tri_tables_def Let_def)

lemma tri_prepare_inf:
  "prepare_decimate_halfedge_5d (tri_env True (\<lambda>e. PInf) refuse_edge_0) unit_config tri_V
     [(0, 1, 2)] tri_TC [(0, 1, 2)] () [] 2 = Inr (tri_tables tri_V (\<lambda>e. PInf), 3)"
  by code_simp

lemma tri5_prepare_inf:
  "prepare_decimate_halfedge_5d (tri_env True (\<lambda>e. PInf) refuse_edge_0) unit_config tri5_V
     [(0, 1, 2)] tri_TC [(0, 1, 2)] () [] 4 = Inr (tri_tables tri5_V (\<lambda>e. PInf), 5)"
  by code_simp

lemma tri_clean:
  "clean_mesh True 0 (t_V (tri_tables tri_V c)) (t_F (tri_tables tri_V c))
     (t_TC (tri_tables tri_V c)) (t_FT (tri_tables tri_V c)) (Suc 0) =
   Inr \<lparr>V_out = tri_V, F_out = [(0, 1, 2)], TC_out = tri_TC, FT_out = [(0, 1, 2)]\<rparr>"
  by (simp add: tri_tables_def tri_V_def tri_TC_def clean_mesh_def live_def
       remove_unreferenced_def referenced_def new_index_def upt_rec)

lemma tri5_clean:
  "clean_mesh True 0 (t_V (tri_tables tri5_V c)) (t_F (tri_tables tri5_V c))
     (t_TC (tri_tables tri5_V c)) (t_FT (tri_tables tri5_V c)) (Suc 0) =
   Inr \<lparr>V_out = tri_V, F_out = [(0, 1, 2)], TC_out = tri_TC, FT_out = [(0, 1, 2)]\<rparr>"
  by (simp add: tri_tables_def tri5_V_def tri_V_def tri_TC_def clean_mesh_def live_def
       remove_unreferenced_def referenced_def new_index_def upt_rec)

lemma to_string_3: "to_string 3 = ''3''"
  by code_simp



















text \<open>
  Claim C1 (what the code does). When the head of the collapse loop of
  \<^verbatim>\<open>decimate_halfedge_5d\<close> finds more vertices than the target and the queue empty, or
  its cheapest edge at infinite cost, the loop is left with \<^verbatim>\<open>clean_finish\<close> still
  true: the function reports success and the driver prints no warning. Only a failure
  inside \<^verbatim>\<open>collapse_one_edge\<close> clears \<^verbatim>\<open>clean_finish\<close>.
\<close>

theorem infeasible_at_loop_head_reports_success:
  assumes "target < remain_vertices s"
    and "t_Q (tabs s) = [] \<or> dbl_eq (fst (hd (t_Q (tabs s)))) PInf"
  shows "decimate_loop env cfg target s = Some (Inr (True, s))"
  using assms by (auto simp: decimate_loop.simps decimate_iteration_def Let_def)

lemma tri_decimate_inf:
  "decimate_halfedge_5d (tri_env True (\<lambda>e. PInf) refuse_edge_0) unit_config tri_V [(0, 1, 2)]
     tri_TC [(0, 1, 2)] () [] 2 =
   Some (Inr \<lparr>clean_finish = True,
      cleaned_mesh = \<lparr>V_out = tri_V, F_out = [(0, 1, 2)], TC_out = tri_TC, FT_out = [(0, 1, 2)]\<rparr>,
      max_error = Fin 0\<rparr>)"
proof -
  let ?s = "\<lparr>prev_e = - 1, remain_vertices = int (length (t_V (tri_tables tri_V (\<lambda>e. PInf)))),
      current_max_error = Fin 0,
      tabs = (tri_tables tri_V (\<lambda>e. PInf))
        \<lparr>t_V_scaled := scale (t_V (tri_tables tri_V (\<lambda>e. PInf))) (pos_scale unit_config),
         t_TC_scaled := scale (t_TC (tri_tables tri_V (\<lambda>e. PInf))) (uv_weight unit_config)\<rparr>\<rparr>"
  have "decimate_loop (tri_env True (\<lambda>e. PInf) refuse_edge_0) unit_config 3 ?s = Some (Inr (True, ?s))"
    by (auto simp: decimate_loop.simps decimate_iteration_def Let_def tri_queue_inf dbl_eq_def
          tri_tables_V tri_dims)
  then show ?thesis
    by (simp add: decimate_halfedge_5d_def tri_prepare_inf tri_clean tri_env_sel)
qed

lemma tri_main_inf:
  "main (tri_world True (\<lambda>e. PInf) refuse_edge_0 tri_V)
     [''decimater'', ''tri.obj'', ''num-vertices'', ''2''] =
   Some (Inr \<lparr>exit_code = 0, stderr = [],
              written = [(''tri-decimated_to_3_err_0.000000.obj'', tri_obj tri_V)]\<rparr>)"
proof -
  have d: "decimate_down_to (tri_world True (\<lambda>e. PInf) refuse_edge_0 tri_V) (tri_obj tri_V) 2 2
             False (Fin 1) =
     Some (Inr \<lparr>clean_finish = True,
        cleaned_mesh = \<lparr>V_out = tri_V, F_out = [(0, 1, 2)], TC_out = tri_TC, FT_out = [(0, 1, 2)]\<rparr>,
        max_error = Fin 0\<rparr>)"
    using tri_decimate_inf
    by (simp add: decimate_down_to_def tri_world_sel tri_env_sel tri_obj_def unit_config_def
          Let_def tri_dims)
  show ?thesis
    using d
    by (simp add: main_def parse_options_def target_of_command_def tri_world_def tri_obj_def
          write_and_exit_def tri_dims to_string_3)
qed

theorem infeasible_at_loop_head_reports_success_witness:
  "decimate_loop (tri_env True (\<lambda>e. PInf) refuse_edge_0) unit_config 3
     \<lparr>prev_e = - 1, remain_vertices = 4, current_max_error = Fin 0,
      tabs = tri_tables tri_V (\<lambda>e. PInf)\<rparr> =
   Some (Inr (True, \<lparr>prev_e = - 1, remain_vertices = 4, current_max_error = Fin 0,
      tabs = tri_tables tri_V (\<lambda>e. PInf)\<rparr>)) \<and>
   main (tri_world True (\<lambda>e. PInf) refuse_edge_0 tri_V)
     [''decimater'', ''tri.obj'', ''num-vertices'', ''2''] =
   Some (Inr \<lparr>exit_code = 0, stderr = [],
              written = [(''tri-decimated_to_3_err_0.000000.obj'', tri_obj tri_V)]\<rparr>)"
proof -
  have "decimate_loop (tri_env True (\<lambda>e. PInf) refuse_edge_0) unit_config 3
     \<lparr>prev_e = - 1, remain_vertices = 4, current_max_error = Fin 0,
      tabs = tri_tables tri_V (\<lambda>e. PInf)\<rparr> =
   Some (Inr (True, \<lparr>prev_e = - 1, remain_vertices = 4, current_max_error = Fin 0,
      tabs = tri_tables tri_V (\<lambda>e. PInf)\<rparr>))"
    by (rule infeasible_at_loop_head_reports_success) (simp_all add: tri_queue_inf dbl_eq_def)
  with tri_main_inf show ?thesis by simp
qed

text \<open>
  Claim C2 (what the code does). The compaction keeps only the vertices that a face of
  the first \<^verbatim>\<open>OF.rows()\<close> rows names, so the output never has more than three vertices
  per input face, whatever the target is. A mesh with vertices that no face uses
  therefore comes out with fewer vertices than a target that counts them.
\<close>

lemma length_referenced: "length (referenced n F) \<le> 3 * length F"
proof -
  have "length (referenced n F) = card (set (referenced n F))"
    by (simp add: distinct_card referenced_sorted)
  also have "\<dots> = card (int ` set (referenced n F))"
    by (simp add: card_image)
  also have "\<dots> \<le> card (set (concat (map corners F)))"
    by (rule card_mono) (auto simp: referenced_def)
  also have "\<dots> \<le> length (concat (map corners F))" by (rule card_length)
  also have "\<dots> = 3 * length F" by (induction F) auto
  finally show ?thesis .
qed

theorem output_has_at_most_three_vertices_per_face:
  fixes env :: "('s, 'p) env"
  assumes "decimate_halfedge_5d env cfg OV OF' OTC OFT se vm target = Some (Inr d)"
  shows "length (V_out (cleaned_mesh d)) \<le> 3 * length OF'"
proof -
  from assms obtain s :: "('s, 'p) loop_state" where
    c: "clean_mesh (assertions_off env) (DUV_COLLAPSE_EDGE_NULL env)
       (t_V (tabs s)) (t_F (tabs s)) (t_TC (tabs s)) (t_FT (tabs s)) (length OF') =
     Inr (cleaned_mesh d)"
    by (blast elim: decimate_halfedge_5d_Some)
  define kept where
    "kept = filter (\<lambda>f. live (DUV_COLLAPSE_EDGE_NULL env) (t_F (tabs s) ! f)) [0..<length OF']"
  from clean_mesh_Inr(5)[OF c]
  have "length (V_out (cleaned_mesh d)) \<le> 3 * length kept"
    using length_referenced[of "length (t_V (tabs s))" "map (\<lambda>f. t_F (tabs s) ! f) kept"]
    by (simp add: kept_def)
  also have "length kept \<le> length OF'"
    using length_filter_le[of _ "[0..<length OF']"] by (simp add: kept_def)
  finally show ?thesis by simp
qed

lemma tri5_decimate_inf:
  "decimate_halfedge_5d (tri_env True (\<lambda>e. PInf) refuse_edge_0) unit_config tri5_V [(0, 1, 2)]
     tri_TC [(0, 1, 2)] () [] 4 =
   Some (Inr \<lparr>clean_finish = True,
      cleaned_mesh = \<lparr>V_out = tri_V, F_out = [(0, 1, 2)], TC_out = tri_TC, FT_out = [(0, 1, 2)]\<rparr>,
      max_error = Fin 0\<rparr>)"
proof -
  let ?s = "\<lparr>prev_e = - 1, remain_vertices = int (length (t_V (tri_tables tri5_V (\<lambda>e. PInf)))),
      current_max_error = Fin 0,
      tabs = (tri_tables tri5_V (\<lambda>e. PInf))
        \<lparr>t_V_scaled := scale (t_V (tri_tables tri5_V (\<lambda>e. PInf))) (pos_scale unit_config),
         t_TC_scaled := scale (t_TC (tri_tables tri5_V (\<lambda>e. PInf))) (uv_weight unit_config)\<rparr>\<rparr>"
  have "decimate_loop (tri_env True (\<lambda>e. PInf) refuse_edge_0) unit_config 5 ?s = Some (Inr (True, ?s))"
    by (auto simp: decimate_loop.simps decimate_iteration_def Let_def tri_queue_inf dbl_eq_def
          tri_tables_V tri_dims)
  then show ?thesis
    by (simp add: decimate_halfedge_5d_def tri5_prepare_inf tri5_clean tri_env_sel)
qed

theorem output_has_at_most_three_vertices_per_face_witness:
  "decimate_halfedge_5d (tri_env True (\<lambda>e. PInf) refuse_edge_0) unit_config tri5_V [(0, 1, 2)]
     tri_TC [(0, 1, 2)] () [] 4 =
   Some (Inr \<lparr>clean_finish = True,
      cleaned_mesh = \<lparr>V_out = tri_V, F_out = [(0, 1, 2)], TC_out = tri_TC, FT_out = [(0, 1, 2)]\<rparr>,
      max_error = Fin 0\<rparr>) \<and>
   4 < length tri5_V \<and> length tri_V \<le> 3 * length [(0, 1, 2) :: face] \<and> length tri_V < 4"
proof -
  from output_has_at_most_three_vertices_per_face[OF tri5_decimate_inf] tri5_decimate_inf
  show ?thesis by (simp add: tri_dims)
qed



lemma attempt_reached_result:
  "attempt_reached env cfg prev tb0 e tb \<Longrightarrow>
     collapse_attempts env cfg prev None tb0 = collapse_attempts env cfg prev e tb"
proof (induction rule: attempt_reached.induct)
  case first
  show ?case ..
next
  case (retry e tb e' tb')
  have "collapse_attempts env cfg prev e tb = collapse_attempts env cfg prev (Some e') tb'"
    using retry.hyps by (subst collapse_attempts.simps) simp
  with retry.IH show ?case by simp
qed

lemma attempt_reached_head:
  "attempt_reached env cfg prev tb0 e tb \<Longrightarrow>
     tb = tb0 \<or> (t_Q tb0 \<noteq> [] \<and> \<not> dbl_eq (fst (hd (t_Q tb0))) PInf)"
  by (induction rule: attempt_reached.induct) auto

lemma failed_attempt_aborts_or_returns:
  fixes env :: "('s, 'p) env"
  assumes q: "t_Q tb \<noteq> []" "\<not> dbl_eq (fst (hd (t_Q tb))) PInf"
    and fail: "collapse_edge_with_uv env cfg tb = (False, prev_e s, tb')"
  shows "collapse_attempts env cfg (prev_e s) e tb =
           (if assertions_off env then Some (Inr (False, Some (prev_e s), tb'))
            else Some (Inl Assertion_failed)) \<and>
         (attempt_reached env cfg (prev_e s) (tabs s) e tb \<longrightarrow>
            collapse_one_edge env cfg (prev_e s) (tabs s) =
              (if assertions_off env then Some (Inr (False, prev_e s, tb'))
               else Some (Inl Assertion_failed)) \<and>
            decimate_iteration env cfg s =
              (if assertions_off env then Some (Inr (Break False (s\<lparr>tabs := tb'\<rparr>)))
               else Some (Inl Assertion_failed)) \<and>
            (target < remain_vertices s \<longrightarrow>
               decimate_loop env cfg target s =
                 (if assertions_off env then Some (Inr (False, s\<lparr>tabs := tb'\<rparr>))
                  else Some (Inl Assertion_failed))))"
proof (intro conjI impI)
  show a: "collapse_attempts env cfg (prev_e s) e tb =
           (if assertions_off env then Some (Inr (False, Some (prev_e s), tb'))
            else Some (Inl Assertion_failed))"
    using q fail by (subst collapse_attempts.simps) simp
  assume r: "attempt_reached env cfg (prev_e s) (tabs s) e tb"
  from attempt_reached_result[OF r] a
  show c: "collapse_one_edge env cfg (prev_e s) (tabs s) =
              (if assertions_off env then Some (Inr (False, prev_e s, tb'))
               else Some (Inl Assertion_failed))"
    by (simp add: collapse_one_edge_def)
  from attempt_reached_head[OF r] q
  have h: "t_Q (tabs s) \<noteq> []" "\<not> dbl_eq (fst (hd (t_Q (tabs s)))) PInf" by auto
  with c show i: "decimate_iteration env cfg s =
              (if assertions_off env then Some (Inr (Break False (s\<lparr>tabs := tb'\<rparr>)))
               else Some (Inl Assertion_failed))"
    by (simp add: decimate_iteration_def Let_def)
  assume "target < remain_vertices s"
  with i show "decimate_loop env cfg target s =
                 (if assertions_off env then Some (Inr (False, s\<lparr>tabs := tb'\<rparr>))
                  else Some (Inl Assertion_failed))"
    by (subst decimate_loop.simps) simp
qed


text \<open>
  Claim C9, as amended. When an attempt of \<^verbatim>\<open>collapse_one_edge\<close>, the first of a call or
  a later one, fails on the edge that \<^verbatim>\<open>prev_e\<close> holds, a build with assertions aborts on
  the failed assertion; a build with \<^verbatim>\<open>NDEBUG\<close> does not abort: it leaves the loop of
  \<^verbatim>\<open>collapse_one_edge\<close>, which returns false, and the collapse loop of
  \<^verbatim>\<open>decimate_halfedge_5d\<close> ends with \<^verbatim>\<open>clean_finish\<close> false.
\<close>

theorem failed_attempt_on_prev_e:
  fixes env :: "('s, 'p) env"
  assumes "t_Q tb \<noteq> []" and "\<not> dbl_eq (fst (hd (t_Q tb))) PInf"
    and "collapse_edge_with_uv env cfg tb = (False, prev_e s, tb')"
  shows "collapse_attempts env cfg (prev_e s) e tb =
           (if assertions_off env then Some (Inr (False, Some (prev_e s), tb'))
            else Some (Inl Assertion_failed)) \<and>
         (attempt_reached env cfg (prev_e s) (tabs s) e tb \<longrightarrow>
            collapse_one_edge env cfg (prev_e s) (tabs s) =
              (if assertions_off env then Some (Inr (False, prev_e s, tb'))
               else Some (Inl Assertion_failed)) \<and>
            decimate_iteration env cfg s =
              (if assertions_off env then Some (Inr (Break False (s\<lparr>tabs := tb'\<rparr>)))
               else Some (Inl Assertion_failed)) \<and>
            (target < remain_vertices s \<longrightarrow>
               decimate_loop env cfg target s =
                 (if assertions_off env then Some (Inr (False, s\<lparr>tabs := tb'\<rparr>))
                  else Some (Inl Assertion_failed))))"
  using assms by (rule failed_attempt_aborts_or_returns)

lemma tri_second_attempt:
  "attempt_reached (tri_env off (\<lambda>e. Fin 4) refuse_and_drop) unit_config 1
     (tri_tables tri_V (\<lambda>e. Fin 4)) (Some 0)
     ((tri_tables tri_V (\<lambda>e. Fin 4))
        \<lparr>t_Q := [(Fin 4, 1), (Fin 4, 2), (Fin 4, 3), (Fin 4, 4), (Fin 4, 5)]\<rparr>)"
  by (rule attempt_reached.retry[OF attempt_reached.first])
     (simp_all add: tri_queue_4 dbl_eq_def tri_env_sel refuse_and_drop_def)

theorem failed_attempt_on_prev_e_witness:
  "collapse_edge_with_uv (tri_env False (\<lambda>e. Fin 4) refuse_and_drop) unit_config
     (tri_tables tri_V (\<lambda>e. Fin 4)) =
     (False, 0, (tri_tables tri_V (\<lambda>e. Fin 4))
        \<lparr>t_Q := [(Fin 4, 1), (Fin 4, 2), (Fin 4, 3), (Fin 4, 4), (Fin 4, 5)]\<rparr>) \<and>
   collapse_edge_with_uv (tri_env False (\<lambda>e. Fin 4) refuse_and_drop) unit_config
     ((tri_tables tri_V (\<lambda>e. Fin 4))
        \<lparr>t_Q := [(Fin 4, 1), (Fin 4, 2), (Fin 4, 3), (Fin 4, 4), (Fin 4, 5)]\<rparr>) =
     (False, 1, (tri_tables tri_V (\<lambda>e. Fin 4))
        \<lparr>t_Q := [(Fin 4, 2), (Fin 4, 3), (Fin 4, 4), (Fin 4, 5)]\<rparr>) \<and>
   collapse_one_edge (tri_env False (\<lambda>e. Fin 4) refuse_and_drop) unit_config 1
     (tri_tables tri_V (\<lambda>e. Fin 4)) = Some (Inl Assertion_failed) \<and>
   decimate_loop (tri_env False (\<lambda>e. Fin 4) refuse_and_drop) unit_config 3
     \<lparr>prev_e = 1, remain_vertices = 4, current_max_error = Fin 0,
      tabs = tri_tables tri_V (\<lambda>e. Fin 4)\<rparr> = Some (Inl Assertion_failed) \<and>
   collapse_one_edge (tri_env True (\<lambda>e. Fin 4) refuse_and_drop) unit_config 1
     (tri_tables tri_V (\<lambda>e. Fin 4)) =
     Some (Inr (False, 1, (tri_tables tri_V (\<lambda>e. Fin 4))
        \<lparr>t_Q := [(Fin 4, 2), (Fin 4, 3), (Fin 4, 4), (Fin 4, 5)]\<rparr>)) \<and>
   decimate_loop (tri_env True (\<lambda>e. Fin 4) refuse_and_drop) unit_config 3
     \<lparr>prev_e = 1, remain_vertices = 4, current_max_error = Fin 0,
      tabs = tri_tables tri_V (\<lambda>e. Fin 4)\<rparr> =
     Some (Inr (False,
       \<lparr>prev_e = 1, remain_vertices = 4, current_max_error = Fin 0,
        tabs = (tri_tables tri_V (\<lambda>e. Fin 4))
          \<lparr>t_Q := [(Fin 4, 2), (Fin 4, 3), (Fin 4, 4), (Fin 4, 5)]\<rparr>\<rparr>))"
proof -
  let ?T = "tri_tables tri_V (\<lambda>e. Fin 4)"
  let ?T1 = "?T\<lparr>t_Q := [(Fin 4, 1), (Fin 4, 2), (Fin 4, 3), (Fin 4, 4), (Fin 4, 5)]\<rparr>"
  let ?T2 = "?T\<lparr>t_Q := [(Fin 4, 2), (Fin 4, 3), (Fin 4, 4), (Fin 4, 5)]\<rparr>"
  let ?s = "\<lparr>prev_e = 1, remain_vertices = 4, current_max_error = Fin 0, tabs = ?T\<rparr>"
  have q: "t_Q ?T1 \<noteq> []" "\<not> dbl_eq (fst (hd (t_Q ?T1))) PInf" by (simp_all add: dbl_eq_def)
  have e0: "collapse_edge_with_uv (tri_env off (\<lambda>e. Fin 4) refuse_and_drop) unit_config ?T =
      (False, 0, ?T1)" for off
    by (simp add: tri_env_sel refuse_and_drop_def tri_queue_4)
  have e1: "collapse_edge_with_uv (tri_env off (\<lambda>e. Fin 4) refuse_and_drop) unit_config ?T1 =
      (False, prev_e ?s, ?T2)" for off
    by (simp add: tri_env_sel refuse_and_drop_def)
  have r: "attempt_reached (tri_env off (\<lambda>e. Fin 4) refuse_and_drop) unit_config (prev_e ?s)
      (tabs ?s) (Some 0) ?T1" for off
    using tri_second_attempt[of off] by simp
  note dbg = failed_attempt_on_prev_e[OF q e1[of False], of "Some 0" 3]
  note rel = failed_attempt_on_prev_e[OF q e1[of True], of "Some 0" 3]
  from dbg r[of False] have
    "collapse_one_edge (tri_env False (\<lambda>e. Fin 4) refuse_and_drop) unit_config 1 ?T =
       Some (Inl Assertion_failed)"
    "decimate_loop (tri_env False (\<lambda>e. Fin 4) refuse_and_drop) unit_config 3 ?s =
       Some (Inl Assertion_failed)"
    by (simp_all add: tri_env_sel)
  moreover from rel r[of True] have
    "collapse_one_edge (tri_env True (\<lambda>e. Fin 4) refuse_and_drop) unit_config 1 ?T =
       Some (Inr (False, 1, ?T2))"
    "decimate_loop (tri_env True (\<lambda>e. Fin 4) refuse_and_drop) unit_config 3 ?s =
       Some (Inr (False, \<lparr>prev_e = 1, remain_vertices = 4, current_max_error = Fin 0,
          tabs = ?T2\<rparr>))"
    by (simp_all add: tri_env_sel)
  moreover have "collapse_edge_with_uv (tri_env False (\<lambda>e. Fin 4) refuse_and_drop) unit_config ?T1 =
      (False, 1, ?T2)"
    using e1[of False] by simp
  ultimately show ?thesis using e0[of False] by (intro conjI)
qed

text \<open>
  The claim as it is written fails twice. In a build with assertions the executor
  \<open>refuse_edge_0\<close> makes the loop of \<^verbatim>\<open>collapse_one_edge\<close> pop edge 0 at every attempt
  while \<^verbatim>\<open>prev_e\<close> is \<open>-1\<close>: the call neither aborts nor returns. In a build with
  \<^verbatim>\<open>NDEBUG\<close> the failed attempt on the edge \<^verbatim>\<open>prev_e\<close> makes the call return false.
\<close>

lemma unchanged_failure_never_returns:
  assumes ret: "collapse_attempts env cfg prev e tb = Some y"
    and fails: "\<forall>c t. collapse_edge_with_uv env c t = (False, e0, t)"
    and ne: "prev \<noteq> e0" and q: "t_Q tb \<noteq> []" "\<not> dbl_eq (fst (hd (t_Q tb))) PInf"
  shows False
proof -
  have "(\<forall>c t. collapse_edge_with_uv env c t = (False, e0, t)) \<longrightarrow> prev \<noteq> e0 \<longrightarrow>
        t_Q tb \<noteq> [] \<longrightarrow> \<not> dbl_eq (fst (hd (t_Q tb))) PInf \<longrightarrow> False"
  proof (rule collapse_attempts.raw_induct[OF _ ret, where
        P = "\<lambda>env cfg prev e tb y. (\<forall>c t. collapse_edge_with_uv env c t = (False, e0, t)) \<longrightarrow>
               prev \<noteq> e0 \<longrightarrow> t_Q tb \<noteq> [] \<longrightarrow> \<not> dbl_eq (fst (hd (t_Q tb))) PInf \<longrightarrow> False"])
    fix attempts :: "('a, 'b) env \<Rightarrow> config \<Rightarrow> int \<Rightarrow> int option \<Rightarrow> ('a, 'b) tables \<Rightarrow>
        (error + (bool \<times> int option \<times> ('a, 'b) tables)) option"
      and env cfg prev e tb y
    assume IH: "\<And>env cfg prev e tb y. attempts env cfg prev e tb = Some y \<Longrightarrow>
        (\<forall>c t. collapse_edge_with_uv env c t = (False, e0, t)) \<longrightarrow> prev \<noteq> e0 \<longrightarrow>
        t_Q tb \<noteq> [] \<longrightarrow> \<not> dbl_eq (fst (hd (t_Q tb))) PInf \<longrightarrow> False"
      and body: "(if t_Q tb = [] then Some (Inr (False, e, tb))
         else if dbl_eq (fst (hd (t_Q tb))) PInf then Some (Inr (False, e, tb))
         else case collapse_edge_with_uv env cfg tb of
           (ok, e', tb') \<Rightarrow>
             if ok then Some (Inr (True, Some e', tb'))
             else if prev = e' then
               (if assertions_off env then Some (Inr (False, Some e', tb'))
                else Some (Inl Assertion_failed))
             else attempts env cfg prev (Some e') tb') = Some y"
    show "(\<forall>c t. collapse_edge_with_uv env c t = (False, e0, t)) \<longrightarrow> prev \<noteq> e0 \<longrightarrow>
        t_Q tb \<noteq> [] \<longrightarrow> \<not> dbl_eq (fst (hd (t_Q tb))) PInf \<longrightarrow> False"
    proof (intro impI)
      assume h: "\<forall>c t. collapse_edge_with_uv env c t = (False, e0, t)" "prev \<noteq> e0"
        "t_Q tb \<noteq> []" "\<not> dbl_eq (fst (hd (t_Q tb))) PInf"
      with body have "attempts env cfg prev (Some e0) tb = Some y" by simp
      from IH[OF this] h show False by blast
    qed
  qed
  with fails ne q show False by blast
qed

theorem same_edge_twice_counterexample:
  "collapse_one_edge (tri_env False (\<lambda>e. Fin 4) refuse_edge_0) unit_config (- 1)
     (tri_tables tri_V (\<lambda>e. Fin 4)) = None \<and>
   collapse_one_edge (tri_env True (\<lambda>e. Fin 4) refuse_edge_0) unit_config 0
     (tri_tables tri_V (\<lambda>e. Fin 4)) = Some (Inr (False, 0, tri_tables tri_V (\<lambda>e. Fin 4)))"
proof -
  have "collapse_attempts (tri_env False (\<lambda>e. Fin 4) refuse_edge_0) unit_config (- 1) None
     (tri_tables tri_V (\<lambda>e. Fin 4)) = None"
  proof (cases "collapse_attempts (tri_env False (\<lambda>e. Fin 4) refuse_edge_0) unit_config (- 1) None
     (tri_tables tri_V (\<lambda>e. Fin 4))")
    case None
    then show ?thesis .
  next
    case (Some y)
    from unchanged_failure_never_returns[OF Some, of 0] show ?thesis
      by (simp add: tri_env_sel refuse_edge_0_def tri_queue_4 dbl_eq_def)
  qed
  then have a: "collapse_one_edge (tri_env False (\<lambda>e. Fin 4) refuse_edge_0) unit_config (- 1)
     (tri_tables tri_V (\<lambda>e. Fin 4)) = None"
    by (simp add: collapse_one_edge_def)
  have b: "collapse_one_edge (tri_env True (\<lambda>e. Fin 4) refuse_edge_0) unit_config 0
     (tri_tables tri_V (\<lambda>e. Fin 4)) = Some (Inr (False, 0, tri_tables tri_V (\<lambda>e. Fin 4)))"
    by (simp add: collapse_one_edge_def collapse_attempts.simps tri_env_sel refuse_edge_0_def
          tri_queue_4 dbl_eq_def)
  from a b show ?thesis ..
qed



text \<open>
  Claim C7 (what the code does). When the requested target is positive and at least
  the number of input vertices, and the OBJ writer succeeds, the driver does not call
  the decimation: it writes the mesh it read, unchanged, to
  \<^verbatim>\<open><input-stem>-decimated_to_<nV>_vertices.obj\<close>, where \<open>nV\<close> is the number of input
  vertices, and then streams \<^verbatim>\<open>argv[4]\<close> into \<^verbatim>\<open>std::cerr\<close> before it returns 0. On a
  command line of four words (the program, the input, the command and its parameter)
  \<^verbatim>\<open>argv[4]\<close> is the null pointer \<^verbatim>\<open>argv[argc]\<close> and the behaviour of the program is
  undefined; with a fifth word the run ends with exit code 0. Here \<open>args\<close> are the
  arguments left after the options are taken out, and the input stem is the first
  component of \<^verbatim>\<open>os_path_splitext\<close>.
\<close>

theorem target_not_below_input_streams_argv_4:
  assumes "parse_options w argv = (degree, weight, boundaries, args)"
    and "length args = 3 \<or> length args = 4"
    and "readOBJ w (args ! 0) = Some m"
    and "args ! 1 = ''num-vertices'' \<or> args ! 1 = ''percent-vertices''"
    and "0 < target_of_command w (args ! 1) (args ! 2) (length (o_V m))"
    and "int (length (o_V m)) \<le> target_of_command w (args ! 1) (args ! 2) (length (o_V m))"
    and "writeOBJ w (fst (os_path_splitext w (args ! 0)) @ ''-decimated_to_''
                       @ to_string (int (length (o_V m))) @ ''_vertices.obj'') m"
  shows "main w argv =
           (if length argv \<le> 4 then Some (Inl Undefined_behaviour)
            else Some (Inr \<lparr>exit_code = 0,
                   stderr = [''ERROR: Target number of vertices must be smaller than the input number of vertices: ''
                               @ argv ! 4],
                   written = [(fst (os_path_splitext w (args ! 0)) @ ''-decimated_to_''
                                 @ to_string (int (length (o_V m))) @ ''_vertices.obj'', m)]\<rparr>))"
  using assms
  by (auto simp: main_def Let_def write_and_exit_def argv_text_def)

lemma tri_parse:
  "parse_options (tri_world True (\<lambda>e. PInf) refuse_edge_0 tri_V)
     (''decimater'' # ''tri.obj'' # ''num-vertices'' # ''5'' # rest) =
   (2, Fin 1, ''--preserve-boundaries'' \<in> set rest,
    ''tri.obj'' # ''num-vertices'' # ''5'' # filter (\<lambda>a. a \<noteq> ''--preserve-boundaries'') rest)"
  by (simp add: parse_options_def tri_world_def)

theorem target_not_below_input_streams_argv_4_witness:
  "main (tri_world True (\<lambda>e. PInf) refuse_edge_0 tri_V)
     [''decimater'', ''tri.obj'', ''num-vertices'', ''5''] = Some (Inl Undefined_behaviour) \<and>
   main (tri_world True (\<lambda>e. PInf) refuse_edge_0 tri_V)
     [''decimater'', ''tri.obj'', ''num-vertices'', ''5'', ''out.obj''] =
     Some (Inr \<lparr>exit_code = 0,
        stderr = [''ERROR: Target number of vertices must be smaller than the input number of vertices: out.obj''],
        written = [(''tri-decimated_to_3_vertices.obj'', tri_obj tri_V)]\<rparr>) \<and>
   target_of_command (tri_world True (\<lambda>e. PInf) refuse_edge_0 tri_V) ''num-vertices'' ''5'' 3 = 5"
proof -
  let ?w = "tri_world True (\<lambda>e. PInf) refuse_edge_0 tri_V"
  have t: "target_of_command ?w ''num-vertices'' ''5'' 3 = 5"
    by (simp add: target_of_command_def tri_world_def)
  have a: "main ?w [''decimater'', ''tri.obj'', ''num-vertices'', ''5''] =
      (if length [''decimater'', ''tri.obj'', ''num-vertices'', ''5''] \<le> 4
       then Some (Inl Undefined_behaviour)
       else Some (Inr \<lparr>exit_code = 0,
          stderr = [''ERROR: Target number of vertices must be smaller than the input number of vertices: ''
                      @ [''decimater'', ''tri.obj'', ''num-vertices'', ''5''] ! 4],
          written = [(fst (os_path_splitext ?w
                             ((''tri.obj'' # ''num-vertices'' # ''5'' #
                               filter (\<lambda>a. a \<noteq> ''--preserve-boundaries'') []) ! 0)) @ ''-decimated_to_''
                           @ to_string (int (length (o_V (tri_obj tri_V)))) @ ''_vertices.obj'',
                      tri_obj tri_V)]\<rparr>))"
    by (rule target_not_below_input_streams_argv_4[OF tri_parse])
       (simp_all add: tri_world_def tri_obj_def tri_dims target_of_command_def)
  have b: "main ?w [''decimater'', ''tri.obj'', ''num-vertices'', ''5'', ''out.obj''] =
      (if length [''decimater'', ''tri.obj'', ''num-vertices'', ''5'', ''out.obj''] \<le> 4
       then Some (Inl Undefined_behaviour)
       else Some (Inr \<lparr>exit_code = 0,
          stderr = [''ERROR: Target number of vertices must be smaller than the input number of vertices: ''
                      @ [''decimater'', ''tri.obj'', ''num-vertices'', ''5'', ''out.obj''] ! 4],
          written = [(fst (os_path_splitext ?w
                             ((''tri.obj'' # ''num-vertices'' # ''5'' #
                               filter (\<lambda>a. a \<noteq> ''--preserve-boundaries'') [''out.obj'']) ! 0))
                           @ ''-decimated_to_''
                           @ to_string (int (length (o_V (tri_obj tri_V)))) @ ''_vertices.obj'',
                      tri_obj tri_V)]\<rparr>))"
    by (rule target_not_below_input_streams_argv_4[OF tri_parse])
       (simp_all add: tri_world_def tri_obj_def tri_dims target_of_command_def)
  from a b t show ?thesis
    by (simp add: tri_world_def tri_obj_def tri_dims to_string_3)
qed


section \<open>Properties of the preparation\<close>

lemma tri_contract: "edge_flaps_contract [(0, 1, 2), (2, 1, 3), (0, 2, 3), (1, 0, 3)] (tri_flaps 3)"
  by code_simp

lemma tri_bf: "boundary_facets_contract [(0, 1, 2)] [(1, 2), (2, 0), (0, 1)]"
  by code_simp

text \<open>One (face, side) pair of the contract.\<close>

lemma edge_flaps_contract_side:
  assumes "edge_flaps_contract F fl" "f < length F" "v < 3"
  defines "e \<equiv> fl_EMAP fl ! (v * length F + f)"
  defines "a \<equiv> corner (F ! f) ((v + 1) mod 3)" and "b \<equiv> corner (F ! f) ((v + 2) mod 3)"
  shows "0 \<le> e" "e < int (length (fl_E fl))"
    "fl_E fl ! nat e = (a, b) \<and> fst (fl_EF fl ! nat e) = int f \<or>
     fl_E fl ! nat e = (b, a) \<and> snd (fl_EF fl ! nat e) = int f"
proof -
  from assms(1) have
    "list_all (\<lambda>f. list_all (\<lambda>v.
          let e = fl_EMAP fl ! (v * length F + f);
              a = corner (F ! f) ((v + 1) mod 3);
              b = corner (F ! f) ((v + 2) mod 3)
          in 0 \<le> e \<and> e < int (length (fl_E fl)) \<and>
             (fl_E fl ! nat e = (a, b) \<and> fst (fl_EF fl ! nat e) = int f \<and>
                fst (fl_EI fl ! nat e) = int v \<or>
              fl_E fl ! nat e = (b, a) \<and> snd (fl_EF fl ! nat e) = int f \<and>
                snd (fl_EI fl ! nat e) = int v)) [0..<3]) [0..<length F]"
    by (simp add: edge_flaps_contract_def)
  with assms(2,3) have
    "0 \<le> e \<and> e < int (length (fl_E fl)) \<and>
             (fl_E fl ! nat e = (a, b) \<and> fst (fl_EF fl ! nat e) = int f \<and>
                fst (fl_EI fl ! nat e) = int v \<or>
              fl_E fl ! nat e = (b, a) \<and> snd (fl_EF fl ! nat e) = int f \<and>
                snd (fl_EI fl ! nat e) = int v)"
    unfolding list_all_iff e_def a_def b_def Let_def by (simp only: set_upt) auto
  then show "0 \<le> e" "e < int (length (fl_E fl))"
    "fl_E fl ! nat e = (a, b) \<and> fst (fl_EF fl ! nat e) = int f \<or>
     fl_E fl ! nat e = (b, a) \<and> snd (fl_EF fl ! nat e) = int f"
    by auto
qed

lemma edge_flaps_contract_unique:
  assumes "edge_flaps_contract F fl" "i < length (fl_E fl)" "j < length (fl_E fl)"
    and "fl_E fl ! i = (a, b)" and "fl_E fl ! j = (a, b) \<or> fl_E fl ! j = (b, a)"
  shows "i = j"
proof -
  define M where "M = map (\<lambda>(a, b). (min a b, max a b)) (fl_E fl)"
  from assms(1) have d: "distinct M"
    by (simp add: edge_flaps_contract_def M_def)
  have l: "i < length M" "j < length M" using assms(2,3) by (simp_all add: M_def)
  have "M ! i = M ! j"
    using assms(2-) by (auto simp: M_def min.commute max.commute)
  with d l show ?thesis by (simp only: nth_eq_iff_index_eq)
qed

lemma find_corner_nondegenerate:
  assumes "a \<noteq> b" "b \<noteq> c" "a \<noteq> c" "v < 3"
  shows "find_corner (a, b, c) (corner (a, b, c) ((v + 2) mod 3)) = (v + 2) mod 3"
    and "corner (a, b, c) (((v + 2) mod 3 + 3 - 1) mod 3) = corner (a, b, c) ((v + 1) mod 3)"
    and "corner (a, b, c) ((v + 1) mod 3) \<noteq> corner (a, b, c) ((v + 2) mod 3)"
proof -
  from assms(4) consider "v = 0" | "v = 1" | "v = 2" by linarith
  then show "find_corner (a, b, c) (corner (a, b, c) ((v + 2) mod 3)) = (v + 2) mod 3"
    using assms(1-3) by cases auto
  from assms(4) consider "v = 0" | "v = 1" | "v = 2" by linarith
  then show "corner (a, b, c) (((v + 2) mod 3 + 3 - 1) mod 3) = corner (a, b, c) ((v + 1) mod 3)"
    by cases auto
  from assms(4) consider "v = 0" | "v = 1" | "v = 2" by linarith
  then show "corner (a, b, c) ((v + 1) mod 3) \<noteq> corner (a, b, c) ((v + 2) mod 3)"
    using assms(1-3) by cases auto
qed

lemma infinity_FT_row_result:
  assumes F: "F = OF' @ map (\<lambda>(a, b). (b, a, int nV)) B"
    and bf: "boundary_facets_contract OF' B"
    and ef: "edge_flaps_contract F fl"
    and nd: "nondegenerate OF'"
    and fi: "length OF' \<le> fi" "fi < length F"
    and FT: "length FT = length F" "\<forall>f < length OF'. FT ! f = Some (OFT ! f)"
  shows "\<exists>f c0 c1. f < length OF' \<and> c0 < 3 \<and> c1 < 3 \<and>
          (fst (fl_EF fl ! nat (fl_EMAP fl ! (2 * length F + fi))) = int fi \<and>
             snd (fl_EF fl ! nat (fl_EMAP fl ! (2 * length F + fi))) = int f \<or>
           snd (fl_EF fl ! nat (fl_EMAP fl ! (2 * length F + fi))) = int fi \<and>
             fst (fl_EF fl ! nat (fl_EMAP fl ! (2 * length F + fi))) = int f) \<and>
          corner (OF' ! f) c0 = corner (F ! fi) 0 \<and> corner (OF' ! f) c1 = corner (F ! fi) 1 \<and>
          corner (F ! fi) 2 = int nV \<and>
          infinity_FT_row ndb nV nTC F fl FT fi =
            Inr (corner (OFT ! f) c0, corner (OFT ! f) c1, int nTC)"
proof -
  define j where "j = fi - length OF'"
  from fi F have j: "j < length B" by (simp add: j_def)
  obtain a b where ab: "B ! j = (a, b)" by (cases "B ! j")
  from fi F j ab have Ffi: "F ! fi = (b, a, int nV)"
    by (simp add: nth_append j_def)
  from bf j ab obtain r v where r: "r \<in> set OF'" and v: "v < 3"
    and a: "a = corner r ((v + 1) mod 3)" and b: "b = corner r ((v + 2) mod 3)"
    unfolding boundary_facets_contract_def list_all_length list_ex_iff
    by (fastforce simp del: upt_Suc)
  from r obtain f where f: "f < length OF'" "OF' ! f = r" by (auto simp: in_set_conv_nth)
  with F have Ff: "F ! f = r" "f < length F" by (simp_all add: nth_append)
  obtain x y z where xyz: "r = (x, y, z)" by (cases r)
  from nd r xyz have dist: "x \<noteq> y" "y \<noteq> z" "x \<noteq> z"
    by (auto simp: nondegenerate_def list_all_iff)
  note fc = find_corner_nondegenerate[OF dist v, folded xyz]
  from fc(3) a b have anb: "a \<noteq> b" by simp
  define e1 where "e1 = fl_EMAP fl ! (2 * length F + fi)"
  define e2 where "e2 = fl_EMAP fl ! (v * length F + f)"
  from edge_flaps_contract_side[OF ef fi(2), of 2] Ffi
  have s1: "0 \<le> e1" "e1 < int (length (fl_E fl))"
    "fl_E fl ! nat e1 = (b, a) \<and> fst (fl_EF fl ! nat e1) = int fi \<or>
     fl_E fl ! nat e1 = (a, b) \<and> snd (fl_EF fl ! nat e1) = int fi"
    by (simp_all add: e1_def)
  from edge_flaps_contract_side[OF ef Ff(2) v] Ff(1) a b
  have s2: "0 \<le> e2" "e2 < int (length (fl_E fl))"
    "fl_E fl ! nat e2 = (a, b) \<and> fst (fl_EF fl ! nat e2) = int f \<or>
     fl_E fl ! nat e2 = (b, a) \<and> snd (fl_EF fl ! nat e2) = int f"
    by (simp_all add: e2_def)
  have "nat e1 = nat e2"
  proof (cases "fl_E fl ! nat e1 = (b, a)")
    case True
    with s2(3) show ?thesis
      using edge_flaps_contract_unique[OF ef, of "nat e1" "nat e2" b a] s1(1,2) s2(1,2)
      by auto
  next
    case False
    with s1(3) have "fl_E fl ! nat e1 = (a, b)" by auto
    with s2(3) show ?thesis
      using edge_flaps_contract_unique[OF ef, of "nat e1" "nat e2" a b] s1(1,2) s2(1,2)
      by auto
  qed
  with s2(3) have s2': "fl_E fl ! nat e1 = (a, b) \<and> fst (fl_EF fl ! nat e1) = int f \<or>
     fl_E fl ! nat e1 = (b, a) \<and> snd (fl_EF fl ! nat e1) = int f" by simp
  from f fi have ne: "int f \<noteq> int fi" by simp
  from s1(3) s2' anb have flap:
    "fst (fl_EF fl ! nat e1) = int fi \<and> snd (fl_EF fl ! nat e1) = int f \<or>
     snd (fl_EF fl ! nat e1) = int fi \<and> fst (fl_EF fl ! nat e1) = int f"
    by auto
  with ne have opp: "(if fst (fl_EF fl ! nat e1) = int fi then snd (fl_EF fl ! nat e1)
                      else fst (fl_EF fl ! nat e1)) = int f"
    by auto
  from ef have lens: "length (fl_EMAP fl) = 3 * length F" "length (fl_EF fl) = length (fl_E fl)"
    by (simp_all add: edge_flaps_contract_def)
  have c0: "(v + 2) mod 3 < 3" and c1: "(v + 1) mod 3 < 3" by simp_all
  from FT f fi have FTf: "(FT[fi := map_option (\<lambda>(a, b, c). (a, b, int nTC)) (FT ! fi)]) ! f =
      Some (OFT ! f)"
    by simp
  from v consider "v = 0" | "v = 1" | "v = 2" by linarith
  then have idx: "((v + 2) mod 3 + 3 - 1) mod 3 = (v + 1) mod 3" by cases simp_all
  have found: "find_corner (F ! nat (int f)) (corner (F ! fi) ((2 + 1) mod 3)) = (v + 2) mod 3"
    using fc(1) Ff(1) Ffi b by simp
  have row: "infinity_FT_row ndb nV nTC F fl FT fi =
      Inr (corner (OFT ! f) ((v + 2) mod 3), corner (OFT ! f) ((v + 1) mod 3), int nTC)"
    unfolding infinity_FT_row_def e1_def[symmetric] Let_def opp found idx
    using Ffi fi(2) lens s1(1,2) flap Ff(2) FTf
    by auto
  from fc a b Ffi f(2) have "corner (OF' ! f) ((v + 2) mod 3) = corner (F ! fi) 0"
    "corner (OF' ! f) ((v + 1) mod 3) = corner (F ! fi) 1" "corner (F ! fi) 2 = int nV"
    by simp_all
  with f(1) c0 c1 flap row show ?thesis
    unfolding e1_def by blast
qed

lemma infinity_FT_rows_result:
  assumes F: "F = OF' @ map (\<lambda>(a, b). (b, a, int nV)) B"
    and bf: "boundary_facets_contract OF' B"
    and ef: "edge_flaps_contract F fl"
    and nd: "nondegenerate OF'"
  shows "\<forall>fi \<in> set fis. length OF' \<le> fi \<and> fi < length F \<Longrightarrow>
     length FT = length F \<Longrightarrow> \<forall>f < length OF'. FT ! f = Some (OFT ! f) \<Longrightarrow>
     \<exists>FT1. infinity_FT_rows ndb nV nTC F fl FT fis = Inr FT1 \<and> length FT1 = length F \<and>
        (\<forall>f < length OF'. FT1 ! f = Some (OFT ! f)) \<and>
        (\<forall>i. i \<notin> set fis \<longrightarrow> FT1 ! i = FT ! i) \<and>
        (\<forall>fi \<in> set fis. \<exists>f c0 c1. f < length OF' \<and> c0 < 3 \<and> c1 < 3 \<and>
           (fst (fl_EF fl ! nat (fl_EMAP fl ! (2 * length F + fi))) = int fi \<and>
              snd (fl_EF fl ! nat (fl_EMAP fl ! (2 * length F + fi))) = int f \<or>
            snd (fl_EF fl ! nat (fl_EMAP fl ! (2 * length F + fi))) = int fi \<and>
              fst (fl_EF fl ! nat (fl_EMAP fl ! (2 * length F + fi))) = int f) \<and>
           corner (OF' ! f) c0 = corner (F ! fi) 0 \<and> corner (OF' ! f) c1 = corner (F ! fi) 1 \<and>
           corner (F ! fi) 2 = int nV \<and>
           FT1 ! fi = Some (corner (OFT ! f) c0, corner (OFT ! f) c1, int nTC))"
proof (induction fis arbitrary: FT)
  case Nil
  then show ?case by simp
next
  case (Cons fi fis)
  from Cons.prems(1) have fi: "length OF' \<le> fi" "fi < length F" by simp_all
  from infinity_FT_row_result[OF F bf ef nd fi Cons.prems(2,3), of ndb nTC]
  obtain f c0 c1 where h: "f < length OF'" "c0 < 3" "c1 < 3"
    "fst (fl_EF fl ! nat (fl_EMAP fl ! (2 * length F + fi))) = int fi \<and>
       snd (fl_EF fl ! nat (fl_EMAP fl ! (2 * length F + fi))) = int f \<or>
     snd (fl_EF fl ! nat (fl_EMAP fl ! (2 * length F + fi))) = int fi \<and>
       fst (fl_EF fl ! nat (fl_EMAP fl ! (2 * length F + fi))) = int f"
    "corner (OF' ! f) c0 = corner (F ! fi) 0" "corner (OF' ! f) c1 = corner (F ! fi) 1"
    "corner (F ! fi) 2 = int nV"
    and row: "infinity_FT_row ndb nV nTC F fl FT fi =
      Inr (corner (OFT ! f) c0, corner (OFT ! f) c1, int nTC)"
    by blast
  define FT' where "FT' = FT[fi := Some (corner (OFT ! f) c0, corner (OFT ! f) c1, int nTC)]"
  have p: "\<forall>fi \<in> set fis. length OF' \<le> fi \<and> fi < length F" "length FT' = length F"
    "\<forall>f < length OF'. FT' ! f = Some (OFT ! f)"
    using Cons.prems fi by (simp_all add: FT'_def)
  from Cons.IH[OF p] obtain FT1 where
    r: "infinity_FT_rows ndb nV nTC F fl FT' fis = Inr FT1" "length FT1 = length F"
      "\<forall>f < length OF'. FT1 ! f = Some (OFT ! f)"
      "\<forall>i. i \<notin> set fis \<longrightarrow> FT1 ! i = FT' ! i"
    and rows: "\<forall>fi \<in> set fis. \<exists>f c0 c1. f < length OF' \<and> c0 < 3 \<and> c1 < 3 \<and>
           (fst (fl_EF fl ! nat (fl_EMAP fl ! (2 * length F + fi))) = int fi \<and>
              snd (fl_EF fl ! nat (fl_EMAP fl ! (2 * length F + fi))) = int f \<or>
            snd (fl_EF fl ! nat (fl_EMAP fl ! (2 * length F + fi))) = int fi \<and>
              fst (fl_EF fl ! nat (fl_EMAP fl ! (2 * length F + fi))) = int f) \<and>
           corner (OF' ! f) c0 = corner (F ! fi) 0 \<and> corner (OF' ! f) c1 = corner (F ! fi) 1 \<and>
           corner (F ! fi) 2 = int nV \<and>
           FT1 ! fi = Some (corner (OFT ! f) c0, corner (OFT ! f) c1, int nTC)"
    by blast
  have e: "infinity_FT_rows ndb nV nTC F fl FT (fi # fis) = Inr FT1"
    using row r(1) by (simp add: FT'_def)
  have keep: "\<forall>i. i \<notin> set (fi # fis) \<longrightarrow> FT1 ! i = FT ! i"
    using r(4) by (simp add: FT'_def)
  have head: "\<exists>f c0 c1. f < length OF' \<and> c0 < 3 \<and> c1 < 3 \<and>
           (fst (fl_EF fl ! nat (fl_EMAP fl ! (2 * length F + fi))) = int fi \<and>
              snd (fl_EF fl ! nat (fl_EMAP fl ! (2 * length F + fi))) = int f \<or>
            snd (fl_EF fl ! nat (fl_EMAP fl ! (2 * length F + fi))) = int fi \<and>
              fst (fl_EF fl ! nat (fl_EMAP fl ! (2 * length F + fi))) = int f) \<and>
           corner (OF' ! f) c0 = corner (F ! fi) 0 \<and> corner (OF' ! f) c1 = corner (F ! fi) 1 \<and>
           corner (F ! fi) 2 = int nV \<and>
           FT1 ! fi = Some (corner (OFT ! f) c0, corner (OFT ! f) c1, int nTC)"
  proof (cases "fi \<in> set fis")
    case True
    with rows show ?thesis by blast
  next
    case False
    with r(4) fi Cons.prems(2) have "FT1 ! fi = Some (corner (OFT ! f) c0, corner (OFT ! f) c1, int nTC)"
      by (simp add: FT'_def)
    with h show ?thesis by blast
  qed
  from e r(2,3) keep head rows show ?case by simp
qed

lemma Q_insert_length:
  "\<forall>y \<in> set q. snd y \<noteq> snd x \<Longrightarrow> length (Q_insert x q) = Suc (length q)"
  by (induction q) (auto simp: pair_less_def)

lemma Q_insert_snd: "snd ` set (Q_insert x q) = insert (snd x) (snd ` set q)"
  by (induction q) (auto simp: pair_less_def)

lemma seed_queue_result:
  fixes tb :: "('s, 'p) tables"
  shows "\<exists>q qi c. seed_queue env cfg tb = tb\<lparr>t_C := c, t_Qit := qi, t_Q := q\<rparr> \<and>
           length q = length (t_E tb)"
proof -
  define step where "step = (\<lambda>(t :: ('s, 'p) tables) (e :: nat).
      case cost_and_placement_qslim5d_halfedge env cfg tb (int e) of
        (cost, new_placement) \<Rightarrow>
          t\<lparr>t_C := t_C t @ [new_placement], t_Qit := t_Qit t @ [(cost, int e)],
            t_Q := Q_insert (cost, int e) (t_Q t)\<rparr>)"
  have inv: "\<exists>q qi c. foldl step (tb\<lparr>t_Q := [], t_Qit := [], t_C := []\<rparr>) [0..<n] =
                tb\<lparr>t_C := c, t_Qit := qi, t_Q := q\<rparr> \<and>
              length q = n \<and> snd ` set q = int ` {0..<n}" for n
  proof (induction n)
    case 0
    show ?case by (rule exI[of _ "[]"], rule exI[of _ "[]"], rule exI[of _ "[]"]) simp
  next
    case (Suc n)
    then obtain q qi c where
      t': "foldl step (tb\<lparr>t_Q := [], t_Qit := [], t_C := []\<rparr>) [0..<n] =
             tb\<lparr>t_C := c, t_Qit := qi, t_Q := q\<rparr>"
      and l: "length q = n" and m: "snd ` set q = int ` {0..<n}"
      by blast
    obtain k p where cp: "cost_and_placement_qslim5d_halfedge env cfg tb (int n) = (k, p)"
      by (cases "cost_and_placement_qslim5d_halfedge env cfg tb (int n)")
    have st: "foldl step (tb\<lparr>t_Q := [], t_Qit := [], t_C := []\<rparr>) [0..<Suc n] =
        tb\<lparr>t_C := c @ [p], t_Qit := qi @ [(k, int n)], t_Q := Q_insert (k, int n) q\<rparr>"
    proof -
      have "foldl step (tb\<lparr>t_Q := [], t_Qit := [], t_C := []\<rparr>) [0..<Suc n] =
          step (foldl step (tb\<lparr>t_Q := [], t_Qit := [], t_C := []\<rparr>) [0..<n]) n"
        by simp
      also have "\<dots> = step (tb\<lparr>t_C := c, t_Qit := qi, t_Q := q\<rparr>) n"
        by (simp only: t')
      also have "\<dots> = tb\<lparr>t_C := c @ [p], t_Qit := qi @ [(k, int n)], t_Q := Q_insert (k, int n) q\<rparr>"
        by (simp add: step_def cp)
      finally show ?thesis .
    qed
    have "\<forall>y \<in> set q. snd y \<noteq> snd (k, int n)"
    proof
      fix y assume "y \<in> set q"
      then have "snd y \<in> snd ` set q" by (rule imageI)
      with m have "snd y \<in> int ` {0..<n}" by simp
      then show "snd y \<noteq> snd (k, int n)" by auto
    qed
    from Q_insert_length[OF this] l
    have a: "length (Q_insert (k, int n) q) = Suc n" by simp
    from Q_insert_snd[of "(k, int n)" q] m
    have b: "snd ` set (Q_insert (k, int n) q) = int ` {0..<Suc n}"
      by (simp add: atLeast0_lessThan_Suc)
    from st a b show ?case by blast
  qed
  have s: "seed_queue env cfg tb =
      foldl step (tb\<lparr>t_Q := [], t_Qit := [], t_C := []\<rparr>) [0..<length (t_E tb)]"
    by (simp add: seed_queue_def step_def)
  from inv[of "length (t_E tb)"] show ?thesis unfolding s by blast
qed

lemma minCoeff_infinity: "0 < n \<Longrightarrow> minCoeff (replicate n PInf) = PInf"
proof -
  have "foldl (\<lambda>m y. if dbl_less y m then y else m) PInf (replicate k PInf) = PInf" for k
    by (induction k) simp_all
  then show "0 < n \<Longrightarrow> minCoeff (replicate n PInf) = PInf"
    by (cases n) simp_all
qed

lemma prepare_Inr:
  fixes env :: "('s, 'p) env"
  assumes "prepare_decimate_halfedge_5d env cfg OV OF' OTC OFT se vm target = Inr (tb, tg)"
  shows "tg = target + 1"
    and "t_V tb = OV @ [replicate (cols OV) PInf]"
    and "t_F tb = OF' @ map (\<lambda>(a, b). (b, a, int (length OV))) (igl_boundary_facets env OF')"
    and "0 < cols OV"
proof -
  from assms have c: "0 < cols OV"
    by (auto simp: prepare_decimate_halfedge_5d_def connect_boundary_to_infinity_def Let_def
             split: if_splits)
  then have m: "dbl_eq (minCoeff (replicate (cols OV) PInf)) PInf"
    by (simp add: minCoeff_infinity dbl_eq_def)
  from assms c m obtain tb0 :: "('s, 'p) tables" where
    tb: "tb = seed_queue env cfg tb0" and tg: "tg = target + 1"
    and v: "t_V tb0 = OV @ [replicate (cols OV) PInf]"
    and f: "t_F tb0 = OF' @ map (\<lambda>(a, b). (b, a, int (length OV))) (igl_boundary_facets env OF')"
    by (auto simp: prepare_decimate_halfedge_5d_def connect_boundary_to_infinity_def Let_def
          split: if_splits sum.splits)
  from seed_queue_result[of env cfg tb0] obtain q qi k where
    "seed_queue env cfg tb0 = tb0\<lparr>t_C := k, t_Qit := qi, t_Q := q\<rparr>"
    by blast
  with tb v f show "t_V tb = OV @ [replicate (cols OV) PInf]"
    "t_F tb = OF' @ map (\<lambda>(a, b). (b, a, int (length OV))) (igl_boundary_facets env OF')"
    by simp_all
  show "tg = target + 1" by (rule tg)
  show "0 < cols OV" by (rule c)
qed

lemma prepare_result:
  fixes env :: "('s, 'p) env" and OV :: matd and OF' :: "face list"
  defines "F \<equiv> OF' @ map (\<lambda>(a, b). (b, a, int (length OV))) (igl_boundary_facets env OF')"
  assumes cols: "0 < cols OV"
    and bf: "boundary_facets_contract OF' (igl_boundary_facets env OF')"
    and ef: "edge_flaps_contract F (igl_edge_flaps env F)"
    and nd: "nondegenerate OF'"
    and len: "length OF' \<le> length OFT"
  shows "\<exists>tb. prepare_decimate_halfedge_5d env cfg OV OF' OTC OFT se vm target = Inr (tb, target + 1) \<and>
     t_F tb = F \<and> t_TC tb = OTC @ [replicate (cols OTC) PInf] \<and>
     length (t_FT tb) = length F \<and>
     (\<forall>f < length OF'. t_FT tb ! f = OFT ! f) \<and>
     (\<forall>fi. length OF' \<le> fi \<and> fi < length F \<longrightarrow>
        (\<exists>f c0 c1. f < length OF' \<and> c0 < 3 \<and> c1 < 3 \<and>
           (fst (t_EF tb ! nat (t_EMAP tb ! (2 * length F + fi))) = int fi \<and>
              snd (t_EF tb ! nat (t_EMAP tb ! (2 * length F + fi))) = int f \<or>
            snd (t_EF tb ! nat (t_EMAP tb ! (2 * length F + fi))) = int fi \<and>
              fst (t_EF tb ! nat (t_EMAP tb ! (2 * length F + fi))) = int f) \<and>
           corner (OF' ! f) c0 = corner (F ! fi) 0 \<and> corner (OF' ! f) c1 = corner (F ! fi) 1 \<and>
           corner (F ! fi) 2 = int (length OV) \<and>
           t_FT tb ! fi = (corner (OFT ! f) c0, corner (OFT ! f) c1, int (length OTC))))"
proof -
  define fl where "fl = igl_edge_flaps env F"
  define FT0 where "FT0 = map Some (take (length F) OFT) @ replicate (length F - length OFT) None"
  have l0: "length FT0 = length F" by (simp add: FT0_def)
  have lF: "length OF' \<le> length F" by (simp add: F_def)
  have r0: "\<forall>f < length OF'. FT0 ! f = Some (OFT ! f)"
    using len lF by (simp add: FT0_def nth_append)
  have fis: "\<forall>fi \<in> set [length OF'..<length F]. length OF' \<le> fi \<and> fi < length F" by simp
  have Feq: "F = OF' @ map (\<lambda>(a, b). (b, a, int (length OV))) (igl_boundary_facets env OF')"
    by (simp add: F_def)
  from infinity_FT_rows_result[OF Feq bf ef[folded fl_def] nd fis l0 r0,
      of "assertions_off env" "length OTC"]
  obtain FT1 where
    r: "infinity_FT_rows (assertions_off env) (length OV) (length OTC) F fl FT0
          [length OF'..<length F] = Inr FT1" "length FT1 = length F"
      "\<forall>f < length OF'. FT1 ! f = Some (OFT ! f)"
    and rows: "\<forall>fi \<in> set [length OF'..<length F]. \<exists>f c0 c1. f < length OF' \<and> c0 < 3 \<and> c1 < 3 \<and>
           (fst (fl_EF fl ! nat (fl_EMAP fl ! (2 * length F + fi))) = int fi \<and>
              snd (fl_EF fl ! nat (fl_EMAP fl ! (2 * length F + fi))) = int f \<or>
            snd (fl_EF fl ! nat (fl_EMAP fl ! (2 * length F + fi))) = int fi \<and>
              fst (fl_EF fl ! nat (fl_EMAP fl ! (2 * length F + fi))) = int f) \<and>
           corner (OF' ! f) c0 = corner (F ! fi) 0 \<and> corner (OF' ! f) c1 = corner (F ! fi) 1 \<and>
           corner (F ! fi) 2 = int (length OV) \<and>
           FT1 ! fi = Some (corner (OFT ! f) c0, corner (OFT ! f) c1, int (length OTC))"
    by blast
  have some: "FT1 ! i \<noteq> None" if "i < length F" for i
  proof (cases "i < length OF'")
    case True
    with r(3) show ?thesis by simp
  next
    case False
    with that have "i \<in> set [length OF'..<length F]" by simp
    with rows show ?thesis by fastforce
  qed
  then have all: "list_all (\<lambda>r. r \<noteq> None) FT1"
    using r(2) by (simp add: list_all_length)
  have aiu: "add_infinity_uv (assertions_off env) OV OF' OTC OFT F fl vm =
      Inr (OTC @ [replicate (cols OTC) PInf], map the FT1,
           Vmetrics_set (int (length OV), int (length OTC)) (replicate 6 (replicate 6 (Fin 0))) vm)"
    using r(1) all by (simp add: add_infinity_uv_def Let_def FT0_def)
  define tb0 :: "('s, 'p) tables" where "tb0 =
     \<lparr>t_V = OV @ [replicate (cols OV) PInf], t_F = F,
      t_TC = OTC @ [replicate (cols OTC) PInf], t_FT = map the FT1,
      t_EMAP = fl_EMAP fl, t_E = fl_E fl, t_EF = fl_EF fl, t_EI = fl_EI fl,
      t_seam_edges = (if preserve_boundaries cfg
                      then insert_boundary_edges env (igl_edge_flaps env OF') se else se),
      t_Vmetrics = Vmetrics_set (int (length OV), int (length OTC))
                     (replicate 6 (replicate 6 (Fin 0))) vm,
      t_Q = [], t_Qit = [], t_C = [],
      t_V_scaled = scale (OV @ [replicate (cols OV) PInf]) (pos_scale cfg),
      t_TC_scaled = scale (OTC @ [replicate (cols OTC) PInf]) (uv_weight cfg)\<rparr>"
  from cols have m: "dbl_eq (minCoeff (replicate (cols OV) PInf)) PInf"
    by (simp add: minCoeff_infinity dbl_eq_def)
  from seed_queue_result[of env cfg tb0] obtain q qi c where
    sq: "seed_queue env cfg tb0 = tb0\<lparr>t_C := c, t_Qit := qi, t_Q := q\<rparr>"
    and lq: "length q = length (t_E tb0)"
    by blast
  have p: "prepare_decimate_halfedge_5d env cfg OV OF' OTC OFT se vm target =
      Inr (seed_queue env cfg tb0, target + 1)"
    using cols m aiu lq
    by (simp add: prepare_decimate_halfedge_5d_def connect_boundary_to_infinity_def Let_def
          F_def[symmetric] fl_def[symmetric] tb0_def[symmetric])
       (simp add: sq)
  have sel: "t_F (seed_queue env cfg tb0) = F"
    "t_TC (seed_queue env cfg tb0) = OTC @ [replicate (cols OTC) PInf]"
    "t_FT (seed_queue env cfg tb0) = map the FT1"
    "t_EF (seed_queue env cfg tb0) = fl_EF fl" "t_EMAP (seed_queue env cfg tb0) = fl_EMAP fl"
    by (simp_all add: sq) (simp_all add: tb0_def)
  have old: "\<forall>f < length OF'. map the FT1 ! f = OFT ! f"
    using r(2,3) lF by simp
  have new: "\<exists>f c0 c1. f < length OF' \<and> c0 < 3 \<and> c1 < 3 \<and>
           (fst (fl_EF fl ! nat (fl_EMAP fl ! (2 * length F + fi))) = int fi \<and>
              snd (fl_EF fl ! nat (fl_EMAP fl ! (2 * length F + fi))) = int f \<or>
            snd (fl_EF fl ! nat (fl_EMAP fl ! (2 * length F + fi))) = int fi \<and>
              fst (fl_EF fl ! nat (fl_EMAP fl ! (2 * length F + fi))) = int f) \<and>
           corner (OF' ! f) c0 = corner (F ! fi) 0 \<and> corner (OF' ! f) c1 = corner (F ! fi) 1 \<and>
           corner (F ! fi) 2 = int (length OV) \<and>
           map the FT1 ! fi = (corner (OFT ! f) c0, corner (OFT ! f) c1, int (length OTC))"
    if "length OF' \<le> fi \<and> fi < length F" for fi
  proof -
    from that have "fi \<in> set [length OF'..<length F]" by simp
    with rows obtain f c0 c1 where h: "f < length OF' \<and> c0 < 3 \<and> c1 < 3 \<and>
           (fst (fl_EF fl ! nat (fl_EMAP fl ! (2 * length F + fi))) = int fi \<and>
              snd (fl_EF fl ! nat (fl_EMAP fl ! (2 * length F + fi))) = int f \<or>
            snd (fl_EF fl ! nat (fl_EMAP fl ! (2 * length F + fi))) = int fi \<and>
              fst (fl_EF fl ! nat (fl_EMAP fl ! (2 * length F + fi))) = int f) \<and>
           corner (OF' ! f) c0 = corner (F ! fi) 0 \<and> corner (OF' ! f) c1 = corner (F ! fi) 1 \<and>
           corner (F ! fi) 2 = int (length OV) \<and>
           FT1 ! fi = Some (corner (OFT ! f) c0, corner (OFT ! f) c1, int (length OTC))"
      by blast
    with that r(2) have "map the FT1 ! fi = (corner (OFT ! f) c0, corner (OFT ! f) c1, int (length OTC))"
      by simp
    with h show ?thesis by blast
  qed
  from p sel old new r(2) show ?thesis
    by (intro exI[of _ "seed_queue env cfg tb0"]) (simp only: length_map, blast)
qed

text \<open>
  Claim C5. On a mesh whose faces have three distinct corners, with the libigl calls
  meeting their contracts and a texture face for every face, the preparation returns,
  and for every face row \<open>fi\<close> that the augmentation added (its corner 2 is the vertex at
  infinity) the row \<open>fi\<close> of \<open>FT\<close> has the index of the texture coordinate at infinity at
  corner 2, and at corners 0 and 1 the texture indices that the opposite face \<open>f\<close>, a
  face of the input across the edge opposite the infinity corner, has at its corners
  \<open>c0\<close> and \<open>c1\<close>: the corners of \<open>f\<close> that hold the position vertices of corners 0 and 1
  of row \<open>fi\<close>. The rows of the input faces keep their texture indices.
\<close>

theorem infinity_faces_get_matching_FT_rows:
  fixes env :: "('s, 'p) env" and OV :: matd and OF' :: "face list"
  defines "F \<equiv> OF' @ map (\<lambda>(a, b). (b, a, int (length OV))) (igl_boundary_facets env OF')"
  assumes "0 < cols OV"
    and "boundary_facets_contract OF' (igl_boundary_facets env OF')"
    and "edge_flaps_contract F (igl_edge_flaps env F)"
    and "nondegenerate OF'"
    and "length OF' \<le> length OFT"
  shows "\<exists>tb. prepare_decimate_halfedge_5d env cfg OV OF' OTC OFT se vm target = Inr (tb, target + 1) \<and>
     t_F tb = F \<and> t_TC tb = OTC @ [replicate (cols OTC) PInf] \<and>
     length (t_FT tb) = length F \<and>
     (\<forall>f < length OF'. t_FT tb ! f = OFT ! f) \<and>
     (\<forall>fi. length OF' \<le> fi \<and> fi < length F \<longrightarrow>
        (\<exists>f c0 c1. f < length OF' \<and> c0 < 3 \<and> c1 < 3 \<and>
           (fst (t_EF tb ! nat (t_EMAP tb ! (2 * length F + fi))) = int fi \<and>
              snd (t_EF tb ! nat (t_EMAP tb ! (2 * length F + fi))) = int f \<or>
            snd (t_EF tb ! nat (t_EMAP tb ! (2 * length F + fi))) = int fi \<and>
              fst (t_EF tb ! nat (t_EMAP tb ! (2 * length F + fi))) = int f) \<and>
           corner (OF' ! f) c0 = corner (F ! fi) 0 \<and> corner (OF' ! f) c1 = corner (F ! fi) 1 \<and>
           corner (F ! fi) 2 = int (length OV) \<and>
           t_FT tb ! fi = (corner (OFT ! f) c0, corner (OFT ! f) c1, int (length OTC))))"
  unfolding F_def using assms(2-) unfolding F_def by (rule prepare_result)

lemma tri_prepare_uv:
  "prepare_decimate_halfedge_5d (tri_env False (\<lambda>e. Fin 4) pop_cheapest) unit_config tri_V
     [(0, 1, 2)] tri_TC [(2, 0, 1)] () [] 2 =
   Inr ((tri_tables tri_V (\<lambda>e. Fin 4))\<lparr>t_FT := [(2, 0, 1), (1, 0, 3), (2, 1, 3), (0, 2, 3)]\<rparr>, 3)"
  by code_simp

theorem infinity_faces_get_matching_FT_rows_witness:
  "prepare_decimate_halfedge_5d (tri_env False (\<lambda>e. Fin 4) pop_cheapest) unit_config tri_V
     [(0, 1, 2)] tri_TC [(2, 0, 1)] () [] 2 =
   Inr ((tri_tables tri_V (\<lambda>e. Fin 4))\<lparr>t_FT := [(2, 0, 1), (1, 0, 3), (2, 1, 3), (0, 2, 3)]\<rparr>, 3) \<and>
   (\<exists>f c0 c1. f < 1 \<and> c0 < 3 \<and> c1 < 3 \<and>
      corner ([(0, 1, 2)] ! f) c0 = 2 \<and> corner ([(0, 1, 2)] ! f) c1 = 1 \<and>
      [(2, 0, 1), (1, 0, 3), (2, 1, 3), (0, 2, 3)] ! 1 =
        (corner ([(2, 0, 1)] ! f) c0, corner ([(2, 0, 1)] ! f) c1, 3))"
proof -
  have c: "0 < cols tri_V" by (simp add: tri_dims)
  have F: "[(0, 1, 2)] @ map (\<lambda>(a, b). (b, a, int (length tri_V)))
              (igl_boundary_facets (tri_env False (\<lambda>e. Fin 4) pop_cheapest) [(0, 1, 2)]) =
           [(0, 1, 2), (2, 1, 3), (0, 2, 3), (1, 0, 3)]"
    by (simp add: tri_env_def tri_dims)
  have bf: "boundary_facets_contract [(0, 1, 2)]
              (igl_boundary_facets (tri_env False (\<lambda>e. Fin 4) pop_cheapest) [(0, 1, 2)])"
    by code_simp
  have ef: "edge_flaps_contract
      ([(0, 1, 2)] @ map (\<lambda>(a, b). (b, a, int (length tri_V)))
              (igl_boundary_facets (tri_env False (\<lambda>e. Fin 4) pop_cheapest) [(0, 1, 2)]))
      (igl_edge_flaps (tri_env False (\<lambda>e. Fin 4) pop_cheapest)
        ([(0, 1, 2)] @ map (\<lambda>(a, b). (b, a, int (length tri_V)))
              (igl_boundary_facets (tri_env False (\<lambda>e. Fin 4) pop_cheapest) [(0, 1, 2)])))"
    by code_simp
  have nd: "nondegenerate [(0, 1, 2)]" by code_simp
  have len: "length [(0, 1, 2) :: face] \<le> length [(2, 0, 1) :: face]" by simp
  from infinity_faces_get_matching_FT_rows[OF c bf ef nd len, of unit_config tri_TC "()" "[]" 2]
  obtain tb where p: "prepare_decimate_halfedge_5d (tri_env False (\<lambda>e. Fin 4) pop_cheapest)
       unit_config tri_V [(0, 1, 2)] tri_TC [(2, 0, 1)] () [] 2 = Inr (tb, 2 + 1)"
    and rows: "\<forall>fi. length [(0, 1, 2) :: face] \<le> fi \<and>
        fi < length ([(0, 1, 2)] @ map (\<lambda>(a, b). (b, a, int (length tri_V)))
              (igl_boundary_facets (tri_env False (\<lambda>e. Fin 4) pop_cheapest) [(0, 1, 2)])) \<longrightarrow>
        (\<exists>f c0 c1. f < length [(0, 1, 2) :: face] \<and> c0 < 3 \<and> c1 < 3 \<and>
           corner ([(0, 1, 2)] ! f) c0 =
             corner (([(0, 1, 2)] @ map (\<lambda>(a, b). (b, a, int (length tri_V)))
              (igl_boundary_facets (tri_env False (\<lambda>e. Fin 4) pop_cheapest) [(0, 1, 2)])) ! fi) 0 \<and>
           corner ([(0, 1, 2)] ! f) c1 =
             corner (([(0, 1, 2)] @ map (\<lambda>(a, b). (b, a, int (length tri_V)))
              (igl_boundary_facets (tri_env False (\<lambda>e. Fin 4) pop_cheapest) [(0, 1, 2)])) ! fi) 1 \<and>
           t_FT tb ! fi = (corner ([(2, 0, 1)] ! f) c0, corner ([(2, 0, 1)] ! f) c1,
                           int (length tri_TC)))"
    by blast
  from p tri_prepare_uv
  have tb: "tb = (tri_tables tri_V (\<lambda>e. Fin 4))\<lparr>t_FT := [(2, 0, 1), (1, 0, 3), (2, 1, 3), (0, 2, 3)]\<rparr>"
    by simp
  from rows[rule_format, of 1] have
    "\<exists>f c0 c1. f < 1 \<and> c0 < 3 \<and> c1 < 3 \<and>
      corner ([(0, 1, 2)] ! f) c0 = 2 \<and> corner ([(0, 1, 2)] ! f) c1 = 1 \<and>
      [(2, 0, 1), (1, 0, 3), (2, 1, 3), (0, 2, 3)] ! 1 =
        (corner ([(2, 0, 1)] ! f) c0, corner ([(2, 0, 1)] ! f) c1, 3)"
    unfolding F tb by (simp add: tri_TC_def)
  with tri_prepare_uv show ?thesis by blast
qed

end
